theory Spec2Isabelle
  imports Main "HOL-Library.AList" "HOL-Library.Word"
begin

section \<open>The IDS7 AI client (ids7client/ai/client.py)\<close>

text \<open>
  The client is a thin wrapper over synchronous JSON-over-HTTP calls. The embedding
  follows \<^verbatim>\<open>client.py\<close> method by method. Every method of the class takes the
  state (the client object \<open>self\<close> together with the remote side and the record of the
  HTTP exchanges made so far) and returns its result, or the exception it raises, together
  with the new state.
\<close>

subsection \<open>JSON payloads, requests and responses\<close>

text \<open>
  A Python float is an IEEE 754 double, kept as its 64 bits: the client carries floats
  around and never computes with them.
\<close>

type_synonym pyfloat = "64 word"

text \<open>
  The Python value that \<^verbatim>\<open>resp.json()\<close> returns. A \<^verbatim>\<open>dict\<close> is an association
  list in insertion order; its keys are distinct and \<open>map_of\<close> is the lookup.
\<close>

datatype json =
    JNull
  | JBool bool
  | JInt int
  | JFloat pyfloat
  | JStr string
  | JList "json list"
  | JDict "(string \<times> json) list"

datatype http_method = GET | POST | PUT

text \<open>
  What the client hands to \<^verbatim>\<open>requests.get\<close>, \<^verbatim>\<open>requests.post\<close> and
  \<^verbatim>\<open>requests.put\<close>: the URL, the \<^verbatim>\<open>params=\<close> dictionary, the \<^verbatim>\<open>json=\<close> body
  and the \<^verbatim>\<open>headers=\<close> dictionary.
\<close>

record request =
  req_method :: http_method
  req_url :: string
  req_params :: "(string \<times> string) list"
  req_json :: "json option"
  req_headers :: "(string \<times> string) list"

text \<open>
  A received HTTP response: \<^verbatim>\<open>resp.status_code\<close>, \<^verbatim>\<open>resp.text\<close> and the value of
  \<^verbatim>\<open>resp.json()\<close>, which is \<open>None\<close> when the body does not parse (the call
  raises a decode error then).
\<close>

record response =
  resp_status_code :: int
  resp_text :: string
  resp_json :: "json option"

text \<open>
  One call into the transport either fails below HTTP (connection refused, timeout, DNS
  failure) or yields a response.
\<close>

datatype outcome = ConnectionFailed | Received response

text \<open>
  The exceptions that can leave a method of the client.
  \<open>IDS7RequestError status_code text path\<close> is the request error of
  \<^verbatim>\<open>ids7client.errors\<close>; \<open>ConnectionError\<close> is the transport's connection-level
  exception; \<open>JSONDecodeError\<close> is raised by \<^verbatim>\<open>resp.json()\<close>; \<open>ValidationError\<close> is
  raised by the schema classes; \<open>TypeError\<close> is raised by \<^verbatim>\<open>**\<close> applied to a value that
  is not a mapping.
\<close>

datatype error =
    IDS7RequestError int string string
  | ConnectionError
  | JSONDecodeError
  | ValidationError
  | TypeError

subsection \<open>The client object and its surroundings\<close>

record ApplicationInfo =
  apiVersion :: string
  softwareVersion :: string

text \<open>
  The slots of \<^verbatim>\<open>IDS7AIClient\<close> (\<^verbatim>\<open>_url\<close>, \<^verbatim>\<open>_token\<close>, \<^verbatim>\<open>_app_id\<close>, \<^verbatim>\<open>_headers\<close>
  and \<^verbatim>\<open>ids7_version\<close>). The slot \<^verbatim>\<open>ids7_version\<close> is unset (\<open>None\<close>) until
  \<^verbatim>\<open>__init__\<close> has received the versions.
\<close>

record IDS7AIClient =
  url :: string
  token :: string
  app_id :: string
  headers :: "(string \<times> string) list"
  ids7_version :: "ApplicationInfo option"

text \<open>The type a field of a schema class declares.\<close>

datatype field_type = TStr | TInt | TFloat | TBool | TList | TDict | TAny

type_synonym schema = "(string \<times> field_type) list"

text \<open>
  What the client is run against. The transport (the \<^verbatim>\<open>requests\<close> library and the remote
  server behind it) is any deterministic machine over a state \<open>'w\<close>. The bound of the retry
  policy and the required fields of \<^verbatim>\<open>ImageInfo\<close> and \<^verbatim>\<open>ResultResponse\<close> are declared
  in \<^verbatim>\<open>ids7client.helpers\<close> and \<^verbatim>\<open>ids7client.ai.schemas\<close> and are parameters here.
\<close>

record 'w env =
  transport :: "request \<Rightarrow> 'w \<Rightarrow> outcome \<times> 'w"
  max_retries :: nat
  ImageInfo_fields :: schema
  ResultResponse_fields :: schema

text \<open>
  The state the methods run in: the client object, the state of the remote side, and the
  HTTP exchanges made so far, oldest first.
\<close>

record 'w state =
  self :: IDS7AIClient
  net :: 'w
  exchanges :: "(request \<times> outcome) list"

subsection \<open>The transport calls\<close>

definition send :: "'w env \<Rightarrow> request \<Rightarrow> 'w state \<Rightarrow> outcome \<times> 'w state" where
  "send E rq s =
     (case transport E rq (net s) of
        (out, n') \<Rightarrow> (out, s\<lparr>net := n', exchanges := exchanges s @ [(rq, out)]\<rparr>))"

definition requests_get ::
  "'w env \<Rightarrow> string \<Rightarrow> (string \<times> string) list \<Rightarrow> (string \<times> string) list \<Rightarrow> 'w state
     \<Rightarrow> outcome \<times> 'w state" where
  "requests_get E u params hs =
     send E \<lparr>req_method = GET, req_url = u, req_params = params, req_json = None,
             req_headers = hs\<rparr>"

definition requests_post ::
  "'w env \<Rightarrow> string \<Rightarrow> json \<Rightarrow> (string \<times> string) list \<Rightarrow> 'w state \<Rightarrow> outcome \<times> 'w state" where
  "requests_post E u payload hs =
     send E \<lparr>req_method = POST, req_url = u, req_params = [], req_json = Some payload,
             req_headers = hs\<rparr>"

definition requests_put ::
  "'w env \<Rightarrow> string \<Rightarrow> json \<Rightarrow> (string \<times> string) list \<Rightarrow> 'w state \<Rightarrow> outcome \<times> 'w state" where
  "requests_put E u payload hs =
     send E \<lparr>req_method = PUT, req_url = u, req_params = [], req_json = Some payload,
             req_headers = hs\<rparr>"

subsection \<open>The retry policy\<close>

text \<open>
  Modelled from the spec: the decorator \<^verbatim>\<open>connection_retry\<close> of \<^verbatim>\<open>ids7client.helpers\<close>
  is not among the sources. The specification (section 4.2) says that the call is
  re-attempted a bounded number of times on transient connection failures, and not on a
  received response with a non-success status; section 7 says that the fault surfaces
  when the retries are exhausted. \<open>connection_retry n f\<close> runs \<open>f\<close> and runs it again, at
  most \<open>n\<close> more times, as long as it raises \<open>ConnectionError\<close>; any other result, value
  or exception, is final.
\<close>

fun connection_retry ::
  "nat \<Rightarrow> ('w state \<Rightarrow> (error + 'a) \<times> 'w state) \<Rightarrow> 'w state \<Rightarrow> (error + 'a) \<times> 'w state" where
  "connection_retry 0 f s = f s"
| "connection_retry (Suc n) f s =
     (case f s of
        (r, s') \<Rightarrow> if r = Inl ConnectionError then connection_retry n f s' else (r, s'))"

subsection \<open>The private methods\<close>

text \<open>The bodies of \<^verbatim>\<open>_get\<close>, \<^verbatim>\<open>_post\<close> and \<^verbatim>\<open>_put\<close>, before decoration.\<close>

definition get_body ::
  "'w env \<Rightarrow> string \<Rightarrow> (string \<times> string) list \<Rightarrow> 'w state \<Rightarrow> (error + json) \<times> 'w state" where
  "get_body E path kwargs s =
     (let u = url (self s) @ path in
      case requests_get E u kwargs (headers (self s)) s of
        (ConnectionFailed, s') \<Rightarrow> (Inl ConnectionError, s')
      | (Received resp, s') \<Rightarrow>
          if resp_status_code resp \<noteq> 200
          then (Inl (IDS7RequestError (resp_status_code resp) (resp_text resp) path), s')
          else (case resp_json resp of
                  None \<Rightarrow> (Inl JSONDecodeError, s')
                | Some j \<Rightarrow> (Inr j, s')))"

definition post_body ::
  "'w env \<Rightarrow> string \<Rightarrow> json \<Rightarrow> bool \<Rightarrow> 'w state \<Rightarrow> (error + json option) \<times> 'w state" where
  "post_body E path payload parse_response s =
     (let u = url (self s) @ path in
      case requests_post E u payload (headers (self s)) s of
        (ConnectionFailed, s') \<Rightarrow> (Inl ConnectionError, s')
      | (Received resp, s') \<Rightarrow>
          if resp_status_code resp \<noteq> 201
          then (Inl (IDS7RequestError (resp_status_code resp) (resp_text resp) path), s')
          else if parse_response
          then (case resp_json resp of
                  None \<Rightarrow> (Inl JSONDecodeError, s')
                | Some j \<Rightarrow> (Inr (Some j), s'))
          else (Inr None, s'))"

definition put_body ::
  "'w env \<Rightarrow> string \<Rightarrow> json \<Rightarrow> bool \<Rightarrow> 'w state \<Rightarrow> (error + json option) \<times> 'w state" where
  "put_body E path values parse_response s =
     (let u = url (self s) @ path in
      case requests_put E u values (headers (self s)) s of
        (ConnectionFailed, s') \<Rightarrow> (Inl ConnectionError, s')
      | (Received resp, s') \<Rightarrow>
          if resp_status_code resp \<noteq> 200
          then (Inl (IDS7RequestError (resp_status_code resp) (resp_text resp) path), s')
          else if parse_response
          then (case resp_json resp of
                  None \<Rightarrow> (Inl JSONDecodeError, s')
                | Some j \<Rightarrow> (Inr (Some j), s'))
          else (Inr None, s'))"

text \<open>The decorated methods \<^verbatim>\<open>self._get\<close>, \<^verbatim>\<open>self._post\<close> and \<^verbatim>\<open>self._put\<close>.\<close>

definition self_get ::
  "'w env \<Rightarrow> string \<Rightarrow> (string \<times> string) list \<Rightarrow> 'w state \<Rightarrow> (error + json) \<times> 'w state" where
  "self_get E path kwargs = connection_retry (max_retries E) (get_body E path kwargs)"

definition self_post ::
  "'w env \<Rightarrow> string \<Rightarrow> json \<Rightarrow> bool \<Rightarrow> 'w state \<Rightarrow> (error + json option) \<times> 'w state" where
  "self_post E path payload parse_response =
     connection_retry (max_retries E) (post_body E path payload parse_response)"

definition self_put ::
  "'w env \<Rightarrow> string \<Rightarrow> json \<Rightarrow> bool \<Rightarrow> 'w state \<Rightarrow> (error + json option) \<times> 'w state" where
  "self_put E path values parse_response =
     connection_retry (max_retries E) (put_body E path values parse_response)"

subsection \<open>Schema validation\<close>

text \<open>
  \<^verbatim>\<open>Cls(**payload)\<close> first unpacks the payload as keyword arguments, which raises
  \<open>TypeError\<close> unless the payload is a mapping (\<^verbatim>\<open>cast\<close> does nothing at run time).
\<close>

definition unpack :: "json option \<Rightarrow> error + (string \<times> json) list" where
  "unpack payload = (case payload of Some (JDict d) \<Rightarrow> Inr d | _ \<Rightarrow> Inl TypeError)"

text \<open>
  Modelled from the spec: the schema classes \<^verbatim>\<open>ApplicationInfo\<close>, \<^verbatim>\<open>ImageInfo\<close>,
  \<^verbatim>\<open>Result\<close> and \<^verbatim>\<open>ResultResponse\<close> of \<^verbatim>\<open>ids7client.ai.schemas\<close> are not among the
  sources. The specification (section 4.3) says that the validator, given a mapping of
  string keys to JSON values and a target record shape, constructs the typed record and
  rejects the payload if required fields are missing or of the wrong type. A typed record
  is the list of its declared fields with their values.
\<close>

fun has_type :: "field_type \<Rightarrow> json \<Rightarrow> bool" where
  "has_type TStr (JStr _) = True"
| "has_type TInt (JInt _) = True"
| "has_type TFloat (JFloat _) = True"
| "has_type TBool (JBool _) = True"
| "has_type TList (JList _) = True"
| "has_type TDict (JDict _) = True"
| "has_type TAny _ = True"
| "has_type _ _ = False"

fun validate :: "schema \<Rightarrow> (string \<times> json) list \<Rightarrow> (string \<times> json) list option" where
  "validate [] d = Some []"
| "validate ((k, t) # sch) d =
     (case map_of d k of
        None \<Rightarrow> None
      | Some v \<Rightarrow> if has_type t v then map_option (Cons (k, v)) (validate sch d) else None)"

definition construct :: "schema \<Rightarrow> json option \<Rightarrow> error + (string \<times> json) list" where
  "construct sch payload =
     (case unpack payload of
        Inl e \<Rightarrow> Inl e
      | Inr d \<Rightarrow> (case validate sch d of None \<Rightarrow> Inl ValidationError | Some rec \<Rightarrow> Inr rec))"

text \<open>
  Modelled from the spec: \<^verbatim>\<open>ApplicationInfo\<close> is the record of the two strings
  \<^verbatim>\<open>apiVersion\<close> and \<^verbatim>\<open>softwareVersion\<close> (section 3); both are required.
\<close>

definition ApplicationInfo_fields :: schema where
  "ApplicationInfo_fields = [(''apiVersion'', TStr), (''softwareVersion'', TStr)]"

definition new_ApplicationInfo :: "json option \<Rightarrow> error + ApplicationInfo" where
  "new_ApplicationInfo payload =
     (case construct ApplicationInfo_fields payload of
        Inl e \<Rightarrow> Inl e
      | Inr rec \<Rightarrow>
          (case (map_of rec ''apiVersion'', map_of rec ''softwareVersion'') of
             (Some (JStr a), Some (JStr b)) \<Rightarrow> Inr \<lparr>apiVersion = a, softwareVersion = b\<rparr>
           | _ \<Rightarrow> Inl ValidationError))"

text \<open>
  Modelled from the spec: a \<^verbatim>\<open>Result\<close> is built by the caller and serialised exactly as
  supplied (section 3); \<^verbatim>\<open>model_dump\<close> returns the dictionary of its fields.
\<close>

type_synonym Result = "(string \<times> json) list"

definition model_dump :: "Result \<Rightarrow> json" where
  "model_dump results = JDict results"

subsection \<open>Construction\<close>

definition retrieve_ids7_versions :: "'w env \<Rightarrow> 'w state \<Rightarrow> (error + ApplicationInfo) \<times> 'w state" where
  "retrieve_ids7_versions E s =
     (case self_get E ''/info'' [] s of
        (Inl e, s1) \<Rightarrow> (Inl e, s1)
      | (Inr payload, s1) \<Rightarrow>
          (case new_ApplicationInfo (Some payload) of
             Inl e \<Rightarrow> (Inl e, s1)
           | Inr versions \<Rightarrow>
               (Inr versions,
                s1\<lparr>self := (self s1)\<lparr>headers :=
                     AList.update ''X-Sectra-SoftwareVersion'' (softwareVersion versions)
                       (AList.update ''X-Sectra-ApiVersion'' (apiVersion versions)
                          (headers (self s1)))\<rparr>\<rparr>)))"

text \<open>
  \<^verbatim>\<open>__init__\<close> runs on a fresh object, against the remote side \<open>n\<close> and after the
  exchanges \<open>xs\<close>.
\<close>

definition init ::
  "'w env \<Rightarrow> string \<Rightarrow> string \<Rightarrow> string \<Rightarrow> 'w \<Rightarrow> (request \<times> outcome) list
     \<Rightarrow> (error + unit) \<times> 'w state" where
  "init E u t a n xs =
     (let s0 = \<lparr>self = \<lparr>url = u, token = t, app_id = a,
                        headers = [(''Authorization'', ''Bearer '' @ t)],
                        ids7_version = None\<rparr>,
               net = n, exchanges = xs\<rparr>
      in case retrieve_ids7_versions E s0 of
           (Inl e, s1) \<Rightarrow> (Inl e, s1)
         | (Inr versions, s1) \<Rightarrow>
             (Inr (), s1\<lparr>self := (self s1)\<lparr>ids7_version := Some versions\<rparr>\<rparr>))"

text \<open>
  The expression \<^verbatim>\<open>IDS7AIClient(url, token, app_id)\<close>: the caller receives the object
  only if \<^verbatim>\<open>__init__\<close> returns.
\<close>

definition new_IDS7AIClient ::
  "'w env \<Rightarrow> string \<Rightarrow> string \<Rightarrow> string \<Rightarrow> 'w \<Rightarrow> (request \<times> outcome) list
     \<Rightarrow> (error + IDS7AIClient) \<times> 'w \<times> (request \<times> outcome) list" where
  "new_IDS7AIClient E u t a n xs =
     (case init E u t a n xs of
        (Inl e, s) \<Rightarrow> (Inl e, net s, exchanges s)
      | (Inr _, s) \<Rightarrow> (Inr (self s), net s, exchanges s))"

subsection \<open>The public operations\<close>

definition get_image_info ::
  "'w env \<Rightarrow> string \<Rightarrow> bool \<Rightarrow> bool \<Rightarrow> 'w state \<Rightarrow> (error + (string \<times> json) list) \<times> 'w state" where
  "get_image_info E slide_id extended phi s =
     (let path = ''/slides/'' @ slide_id @ ''/info'';
          params = [];
          params = (if extended then AList.update ''scope'' ''extended'' params else params);
          params = (if phi then AList.update ''includePHI'' ''true'' params else params)
      in case self_get E path params s of
           (Inl e, s') \<Rightarrow> (Inl e, s')
         | (Inr payload, s') \<Rightarrow> (construct (ImageInfo_fields E) (Some payload), s'))"

definition create_results ::
  "'w env \<Rightarrow> Result \<Rightarrow> 'w state \<Rightarrow> (error + (string \<times> json) list) \<times> 'w state" where
  "create_results E results s =
     (let path = ''/applications/'' @ app_id (self s) @ ''/results'' in
      case self_post E path (model_dump results) True s of
        (Inl e, s') \<Rightarrow> (Inl e, s')
      | (Inr resp, s') \<Rightarrow> (construct (ResultResponse_fields E) resp, s'))"

definition get_results ::
  "'w env \<Rightarrow> string \<Rightarrow> 'w state \<Rightarrow> (error + (string \<times> json) list) \<times> 'w state" where
  "get_results E ident s =
     (let path = ''/application/'' @ app_id (self s) @ ''/results/'' @ ident in
      case self_get E path [] s of
        (Inl e, s') \<Rightarrow> (Inl e, s')
      | (Inr payload, s') \<Rightarrow> (construct (ResultResponse_fields E) (Some payload), s'))"

definition update_results ::
  "'w env \<Rightarrow> string \<Rightarrow> Result \<Rightarrow> 'w state \<Rightarrow> (error + (string \<times> json) list) \<times> 'w state" where
  "update_results E ident results s =
     (let path = ''/application/'' @ app_id (self s) @ ''/results/'' @ ident in
      case self_put E path (model_dump results) True s of
        (Inl e, s') \<Rightarrow> (Inl e, s')
      | (Inr resp, s') \<Rightarrow> (construct (ResultResponse_fields E) resp, s'))"

text \<open>
  A caller holds the client and calls the public operations one after the other; an
  exception of one call does not prevent the next.
\<close>

datatype call =
    GetImageInfo string bool bool
  | CreateResults Result
  | GetResults string
  | UpdateResults string Result

fun run :: "'w env \<Rightarrow> call \<Rightarrow> 'w state \<Rightarrow> (error + (string \<times> json) list) \<times> 'w state" where
  "run E (GetImageInfo slide_id extended phi) s = get_image_info E slide_id extended phi s"
| "run E (CreateResults results) s = create_results E results s"
| "run E (GetResults ident) s = get_results E ident s"
| "run E (UpdateResults ident results) s = update_results E ident results s"

fun run_all :: "'w env \<Rightarrow> call list \<Rightarrow> 'w state \<Rightarrow> 'w state" where
  "run_all E [] s = s"
| "run_all E (c # cs) s = run_all E cs (snd (run E c s))"

section \<open>Vocabulary of the statements\<close>

text \<open>The exchanges a computation made: those of its final state that its initial state lacks.\<close>

definition made :: "'w state \<Rightarrow> 'r \<times> 'w state \<Rightarrow> (request \<times> outcome) list" where
  "made s res = drop (length (exchanges s)) (exchanges (snd res))"

text \<open>The requests the three private methods build for a client \<open>c\<close>.\<close>

definition get_request :: "IDS7AIClient \<Rightarrow> string \<Rightarrow> (string \<times> string) list \<Rightarrow> request" where
  "get_request c path kwargs =
     \<lparr>req_method = GET, req_url = url c @ path, req_params = kwargs, req_json = None,
      req_headers = headers c\<rparr>"

definition post_request :: "IDS7AIClient \<Rightarrow> string \<Rightarrow> json \<Rightarrow> request" where
  "post_request c path payload =
     \<lparr>req_method = POST, req_url = url c @ path, req_params = [], req_json = Some payload,
      req_headers = headers c\<rparr>"

definition put_request :: "IDS7AIClient \<Rightarrow> string \<Rightarrow> json \<Rightarrow> request" where
  "put_request c path payload =
     \<lparr>req_method = PUT, req_url = url c @ path, req_params = [], req_json = Some payload,
      req_headers = headers c\<rparr>"

text \<open>What the private methods and the operations make of the outcome of one exchange.\<close>

definition get_result :: "string \<Rightarrow> outcome \<Rightarrow> error + json" where
  "get_result path out =
     (case out of
        ConnectionFailed \<Rightarrow> Inl ConnectionError
      | Received resp \<Rightarrow>
          if resp_status_code resp \<noteq> 200
          then Inl (IDS7RequestError (resp_status_code resp) (resp_text resp) path)
          else (case resp_json resp of None \<Rightarrow> Inl JSONDecodeError | Some j \<Rightarrow> Inr j))"

definition body_result :: "int \<Rightarrow> string \<Rightarrow> bool \<Rightarrow> outcome \<Rightarrow> error + json option" where
  "body_result expected path parse_response out =
     (case out of
        ConnectionFailed \<Rightarrow> Inl ConnectionError
      | Received resp \<Rightarrow>
          if resp_status_code resp \<noteq> expected
          then Inl (IDS7RequestError (resp_status_code resp) (resp_text resp) path)
          else if parse_response
          then (case resp_json resp of None \<Rightarrow> Inl JSONDecodeError | Some j \<Rightarrow> Inr (Some j))
          else Inr None)"

definition op_result ::
  "schema \<Rightarrow> int \<Rightarrow> string \<Rightarrow> outcome \<Rightarrow> error + (string \<times> json) list" where
  "op_result sch expected path out =
     (case out of
        ConnectionFailed \<Rightarrow> Inl ConnectionError
      | Received resp \<Rightarrow>
          if resp_status_code resp \<noteq> expected
          then Inl (IDS7RequestError (resp_status_code resp) (resp_text resp) path)
          else (case resp_json resp of
                  None \<Rightarrow> Inl JSONDecodeError
                | Some j \<Rightarrow> construct sch (Some j)))"

definition image_info_params :: "bool \<Rightarrow> bool \<Rightarrow> (string \<times> string) list" where
  "image_info_params extended phi =
     (if extended then [(''scope'', ''extended'')] else []) @
     (if phi then [(''includePHI'', ''true'')] else [])"

text \<open>One attempt: a single exchange of the request \<open>rq\<close>, read by \<open>g\<close>.\<close>

definition attempt ::
  "'w env \<Rightarrow> request \<Rightarrow> (outcome \<Rightarrow> error + 'a) \<Rightarrow> 'w state \<Rightarrow> (error + 'a) \<times> 'w state" where
  "attempt E rq g s = (case send E rq s of (out, s') \<Rightarrow> (g out, s'))"

text \<open>
  A computation performs the request \<open>rq\<close>: it leaves the client as it is, sends \<open>rq\<close>
  once more after each connection failure, at most \<open>max_retries\<close> times, and its result is
  \<open>g\<close> of the outcome of the last exchange.
\<close>

definition performs ::
  "'w env \<Rightarrow> request \<Rightarrow> (outcome \<Rightarrow> 'r) \<Rightarrow> 'w state \<Rightarrow> 'r \<times> 'w state \<Rightarrow> bool" where
  "performs E rq g s res =
     (case res of (r, s') \<Rightarrow>
        self s' = self s \<and>
        (\<exists>k out. k \<le> max_retries E \<and>
           exchanges s' = exchanges s @ replicate k (rq, ConnectionFailed) @ [(rq, out)] \<and>
           r = g out \<and> (out = ConnectionFailed \<longrightarrow> k = max_retries E)))"

text \<open>
  The state of the remote side after \<open>k\<close> calls of the request \<open>rq\<close> in a row that all
  failed at connection level, if they did.
\<close>

fun after_failures :: "'w env \<Rightarrow> request \<Rightarrow> nat \<Rightarrow> 'w \<Rightarrow> 'w option" where
  "after_failures E rq 0 n = Some n"
| "after_failures E rq (Suc k) n =
     (case transport E rq n of
        (ConnectionFailed, n') \<Rightarrow> after_failures E rq k n'
      | (Received _, _) \<Rightarrow> None)"

text \<open>The client object as \<^verbatim>\<open>__init__\<close> has it before the versions are retrieved.\<close>

definition fresh_client :: "string \<Rightarrow> string \<Rightarrow> string \<Rightarrow> IDS7AIClient" where
  "fresh_client u t a =
     \<lparr>url = u, token = t, app_id = a, headers = [(''Authorization'', ''Bearer '' @ t)],
      ids7_version = None\<rparr>"

definition is_request_error :: "error + 'a \<Rightarrow> bool" where
  "is_request_error r = (case r of Inl (IDS7RequestError _ _ _) \<Rightarrow> True | _ \<Rightarrow> False)"

text \<open>
  The remote side refuses the request \<open>rq\<close> \<open>k\<close> times in a row and then answers it.
\<close>

definition answers_after :: "'w env \<Rightarrow> request \<Rightarrow> nat \<Rightarrow> 'w \<Rightarrow> response option" where
  "answers_after E rq k n =
     (case after_failures E rq k n of
        None \<Rightarrow> None
      | Some n1 \<Rightarrow>
          (case fst (transport E rq n1) of
             ConnectionFailed \<Rightarrow> None
           | Received resp \<Rightarrow> Some resp))"

text \<open>
  The exchanges \<open>ys\<close> of an operation and its result \<open>r\<close> agree on the request error: the
  operation made at least one exchange, only the last one can have received a response,
  and \<open>r\<close> is the request error with the status code and the text of that response and
  with \<open>path\<close> if the status is not the expected one, and is no request error otherwise.
\<close>

definition request_error_exactly ::
  "int \<Rightarrow> string \<Rightarrow> (request \<times> outcome) list \<Rightarrow> error + 'a \<Rightarrow> bool" where
  "request_error_exactly expected path ys r =
     (ys \<noteq> [] \<and> (\<forall>x \<in> set (butlast ys). snd x = ConnectionFailed) \<and>
      (case snd (last ys) of
         ConnectionFailed \<Rightarrow> \<not> is_request_error r
       | Received resp \<Rightarrow>
           if resp_status_code resp \<noteq> expected
           then r = Inl (IDS7RequestError (resp_status_code resp) (resp_text resp) path)
           else \<not> is_request_error r))"

text \<open>A required field of the schema is missing from the dictionary, or has the wrong type.\<close>

definition missing_or_wrong_type :: "schema \<Rightarrow> (string \<times> json) list \<Rightarrow> bool" where
  "missing_or_wrong_type sch d =
     (\<exists>(k, t) \<in> set sch. case map_of d k of None \<Rightarrow> True | Some v \<Rightarrow> \<not> has_type t v)"

text \<open>
  Whenever an exchange of \<open>ys\<close> received the expected status with a JSON object that lacks
  a required field or has one of the wrong type, the result \<open>r\<close> is the validation error
  and that exchange is the last one.
\<close>

definition validation_failure_final ::
  "int \<Rightarrow> schema \<Rightarrow> (request \<times> outcome) list \<Rightarrow> error + 'a \<Rightarrow> bool" where
  "validation_failure_final expected sch ys r =
     (\<forall>i resp d.
        i < length ys \<and> snd (ys ! i) = Received resp \<and> resp_status_code resp = expected \<and>
        resp_json resp = Some (JDict d) \<and> missing_or_wrong_type sch d \<longrightarrow>
        r = Inl ValidationError \<and> Suc i = length ys)"

text \<open>
  The exchanges \<open>ys\<close> of one decorated call, under the bound \<open>n\<close>: at least one attempt and
  at most \<open>n + 1\<close>, all of the same request; every attempt that was followed by another one
  had failed at connection level; and the call gives up on a connection failure only when
  all \<open>n\<close> retries are used.
\<close>

definition retried_on_connection_failure_only :: "nat \<Rightarrow> (request \<times> outcome) list \<Rightarrow> bool" where
  "retried_on_connection_failure_only n ys =
     (ys \<noteq> [] \<and> length ys \<le> Suc n \<and>
      (\<forall>x \<in> set ys. fst x = fst (hd ys)) \<and>
      (\<forall>x \<in> set (butlast ys). snd x = ConnectionFailed) \<and>
      (snd (last ys) = ConnectionFailed \<longrightarrow> length ys = Suc n))"

text \<open>The JSON value is an object, a \<^verbatim>\<open>dict\<close> in Python.\<close>

fun is_dict :: "json \<Rightarrow> bool" where
  "is_dict (JDict _) = True"
| "is_dict _ = False"

text \<open>
  Whenever an exchange of \<open>ys\<close> received the expected status with a body that parses to
  JSON that is not an object, the result \<open>r\<close> is the type error and that exchange is the
  last one.
\<close>

definition non_object_failure_final ::
  "int \<Rightarrow> (request \<times> outcome) list \<Rightarrow> error + 'a \<Rightarrow> bool" where
  "non_object_failure_final expected ys r =
     (\<forall>i resp j.
        i < length ys \<and> snd (ys ! i) = Received resp \<and> resp_status_code resp = expected \<and>
        resp_json resp = Some j \<and> \<not> is_dict j \<longrightarrow>
        r = Inl TypeError \<and> Suc i = length ys)"

section \<open>A scripted transport\<close>

text \<open>
  For the worked examples: a remote side that answers the calls it receives with the
  outcomes of a script, in order, and refuses the connection once the script is used up.
\<close>

definition scripted :: "nat \<Rightarrow> schema \<Rightarrow> schema \<Rightarrow> outcome list env" where
  "scripted n img res =
     \<lparr>transport = (\<lambda>rq w. case w of [] \<Rightarrow> (ConnectionFailed, []) | out # rest \<Rightarrow> (out, rest)),
      max_retries = n, ImageInfo_fields = img, ResultResponse_fields = res\<rparr>"

definition demo_env :: "outcome list env" where
  "demo_env = scripted 2 [(''id'', TStr)] [(''id'', TStr)]"

definition info_ok :: response where
  "info_ok =
     \<lparr>resp_status_code = 200, resp_text = ''{\"apiVersion\":\"1.0\",\"softwareVersion\":\"7.2\"}'',
      resp_json = Some (JDict [(''apiVersion'', JStr ''1.0''), (''softwareVersion'', JStr ''7.2'')])\<rparr>"

definition demo_client :: IDS7AIClient where
  "demo_client =
     \<lparr>url = ''https://ids7'', token = ''tok'', app_id = ''app'',
      headers = [(''Authorization'', ''Bearer tok''), (''X-Sectra-ApiVersion'', ''1.0''),
                 (''X-Sectra-SoftwareVersion'', ''7.2'')],
      ids7_version = Some \<lparr>apiVersion = ''1.0'', softwareVersion = ''7.2''\<rparr>\<rparr>"

definition demo_state :: "outcome list \<Rightarrow> outcome list state" where
  "demo_state script = \<lparr>self = demo_client, net = script, exchanges = []\<rparr>"

section \<open>How the private methods behave\<close>

subsection \<open>One attempt\<close>

lemma get_body_attempt:
  "get_body E path kwargs s = attempt E (get_request (self s) path kwargs) (get_result path) s"
  by (simp add: get_body_def attempt_def requests_get_def get_request_def get_result_def
      split: prod.splits outcome.splits option.splits)

lemma post_body_attempt:
  "post_body E path payload p s =
     attempt E (post_request (self s) path payload) (body_result 201 path p) s"
  by (simp add: post_body_def attempt_def requests_post_def post_request_def body_result_def
      split: prod.splits outcome.splits option.splits)

lemma put_body_attempt:
  "put_body E path payload p s =
     attempt E (put_request (self s) path payload) (body_result 200 path p) s"
  by (simp add: put_body_def attempt_def requests_put_def put_request_def body_result_def
      split: prod.splits outcome.splits option.splits)

lemma attempt_eq:
  "attempt E rq g s =
     (g (fst (transport E rq (net s))),
      s\<lparr>net := snd (transport E rq (net s)),
        exchanges := exchanges s @ [(rq, fst (transport E rq (net s)))]\<rparr>)"
  by (simp add: attempt_def send_def split: prod.splits)

lemma attempt_self: "attempt E rq g s = (r, s') \<Longrightarrow> self s' = self s"
  by (auto simp: attempt_eq)

lemma attempt_exchanges:
  "attempt E rq g s = (r, s') \<Longrightarrow> \<exists>out. exchanges s' = exchanges s @ [(rq, out)] \<and> r = g out"
  by (auto simp: attempt_eq)

lemma get_result_ConnectionError [simp]:
  "get_result path ConnectionFailed = Inl ConnectionError"
  "get_result path (Received resp) \<noteq> Inl ConnectionError"
  by (simp_all add: get_result_def split: option.splits)

lemma body_result_ConnectionError [simp]:
  "body_result ex path p ConnectionFailed = Inl ConnectionError"
  "body_result ex path p (Received resp) \<noteq> Inl ConnectionError"
  by (simp_all add: body_result_def split: option.splits)

subsection \<open>The retry policy around an attempt\<close>

text \<open>
  Whatever the remote side does, the decorated call makes between one and
  \<open>n + 1\<close> exchanges of the same request; all but the last failed at connection level, and
  the last one decides the result.
\<close>

lemma retry_shape:
  assumes f: "\<And>s. self s = c \<Longrightarrow> f s = attempt E rq g s"
    and g1: "g ConnectionFailed = Inl ConnectionError"
    and g2: "\<And>resp. g (Received resp) \<noteq> Inl ConnectionError"
  shows "self s = c \<Longrightarrow> connection_retry n f s = (r, s') \<Longrightarrow>
     self s' = c \<and>
     (\<exists>k out. k \<le> n \<and>
        exchanges s' = exchanges s @ replicate k (rq, ConnectionFailed) @ [(rq, out)] \<and>
        r = g out \<and> (out = ConnectionFailed \<longrightarrow> k = n))"
proof (induction n arbitrary: s)
  case 0
  then have a: "attempt E rq g s = (r, s')" using f by simp
  from attempt_self[OF a] attempt_exchanges[OF a] 0 show ?case by auto
next
  case (Suc n)
  obtain r1 s1 where a: "attempt E rq g s = (r1, s1)" by (cases "attempt E rq g s")
  from attempt_exchanges[OF a] obtain out1
    where ex1: "exchanges s1 = exchanges s @ [(rq, out1)]" and r1: "r1 = g out1" by blast
  have self1: "self s1 = c" using attempt_self[OF a] Suc.prems by simp
  show ?case
  proof (cases "r1 = Inl ConnectionError")
    case True
    then have out1: "out1 = ConnectionFailed" using r1 g2 by (cases out1) auto
    from True a Suc.prems f have "connection_retry n f s1 = (r, s')" by simp
    from Suc.IH[OF self1 this] obtain k out where
      k: "k \<le> n" "exchanges s' = exchanges s1 @ replicate k (rq, ConnectionFailed) @ [(rq, out)]"
         "r = g out" "out = ConnectionFailed \<longrightarrow> k = n" and s': "self s' = c" by blast
    have "exchanges s' = exchanges s @ replicate (Suc k) (rq, ConnectionFailed) @ [(rq, out)]"
      using k ex1 out1 by simp
    with k s' show ?thesis by (intro conjI exI[of _ "Suc k"] exI[of _ out]) auto
  next
    case False
    with a Suc.prems f have "r = r1" "s' = s1" by auto
    moreover have "out1 \<noteq> ConnectionFailed" using False r1 g1 by auto
    ultimately show ?thesis using ex1 r1 self1
      by (intro conjI exI[of _ 0] exI[of _ out1]) auto
  qed
qed

text \<open>
  If the remote side refuses the connection \<open>k\<close> times, with \<open>k\<close> within the bound, and
  then answers, the decorated call returns what the attempt makes of that answer.
\<close>

lemma retry_after_failures:
  assumes f: "\<And>s. self s = c \<Longrightarrow> f s = attempt E rq g s"
    and g1: "g ConnectionFailed = Inl ConnectionError"
    and g2: "\<And>resp. g (Received resp) \<noteq> Inl ConnectionError"
  shows "self s = c \<Longrightarrow> k \<le> n \<Longrightarrow> after_failures E rq k (net s) = Some n1 \<Longrightarrow>
     transport E rq n1 = (Received resp, n2) \<Longrightarrow>
     connection_retry n f s =
       (g (Received resp),
        s\<lparr>net := n2,
          exchanges := exchanges s @ replicate k (rq, ConnectionFailed) @ [(rq, Received resp)]\<rparr>)"
proof (induction k arbitrary: n s)
  case 0
  then have "f s = (g (Received resp), s\<lparr>net := n2, exchanges := exchanges s @ [(rq, Received resp)]\<rparr>)"
    using f by (simp add: attempt_eq)
  then show ?case using g2 by (cases n) simp_all
next
  case (Suc k)
  then obtain m where n: "n = Suc m" and km: "k \<le> m" by (cases n) auto
  obtain out1 w1 where t: "transport E rq (net s) = (out1, w1)" by (cases "transport E rq (net s)")
  with Suc.prems(3) have out1: "out1 = ConnectionFailed" and af: "after_failures E rq k w1 = Some n1"
    by (cases out1; simp)+
  let ?s1 = "s\<lparr>net := w1, exchanges := exchanges s @ [(rq, ConnectionFailed)]\<rparr>"
  have fs: "f s = (Inl ConnectionError, ?s1)"
    using f Suc.prems(1) t out1 g1 by (simp add: attempt_eq)
  have "connection_retry m f ?s1 =
       (g (Received resp),
        ?s1\<lparr>net := n2,
          exchanges := exchanges ?s1 @ replicate k (rq, ConnectionFailed) @ [(rq, Received resp)]\<rparr>)"
    by (rule Suc.IH) (use Suc.prems km af in simp_all)
  then show ?case using fs n by (simp add: replicate_append_same)
qed


subsection \<open>The decorated methods\<close>

lemma self_get_performs:
  "performs E (get_request (self s) path kwargs) (get_result path) s (self_get E path kwargs s)"
proof -
  obtain r s' where res: "self_get E path kwargs s = (r, s')"
    by (cases "self_get E path kwargs s")
  have "self s' = self s \<and>
     (\<exists>k out. k \<le> max_retries E \<and>
        exchanges s' = exchanges s @
          replicate k (get_request (self s) path kwargs, ConnectionFailed) @
          [(get_request (self s) path kwargs, out)] \<and>
        r = get_result path out \<and> (out = ConnectionFailed \<longrightarrow> k = max_retries E))"
  proof (rule retry_shape [where c = "self s" and E = E and f = "get_body E path kwargs"])
    show "get_body E path kwargs s1 =
        attempt E (get_request (self s) path kwargs) (get_result path) s1"
      if "self s1 = self s" for s1
      using that by (simp add: get_body_attempt)
    show "connection_retry (max_retries E) (get_body E path kwargs) s = (r, s')"
      using res by (simp add: self_get_def)
  qed simp_all
  then show ?thesis by (simp add: performs_def res)
qed

lemma self_post_performs:
  "performs E (post_request (self s) path payload) (body_result 201 path p) s
     (self_post E path payload p s)"
proof -
  obtain r s' where res: "self_post E path payload p s = (r, s')"
    by (cases "self_post E path payload p s")
  have "self s' = self s \<and>
     (\<exists>k out. k \<le> max_retries E \<and>
        exchanges s' = exchanges s @
          replicate k (post_request (self s) path payload, ConnectionFailed) @
          [(post_request (self s) path payload, out)] \<and>
        r = body_result 201 path p out \<and> (out = ConnectionFailed \<longrightarrow> k = max_retries E))"
  proof (rule retry_shape [where c = "self s" and E = E and f = "post_body E path payload p"])
    show "post_body E path payload p s1 =
        attempt E (post_request (self s) path payload) (body_result 201 path p) s1"
      if "self s1 = self s" for s1
      using that by (simp add: post_body_attempt)
    show "connection_retry (max_retries E) (post_body E path payload p) s = (r, s')"
      using res by (simp add: self_post_def)
  qed simp_all
  then show ?thesis by (simp add: performs_def res)
qed

lemma self_put_performs:
  "performs E (put_request (self s) path payload) (body_result 200 path p) s
     (self_put E path payload p s)"
proof -
  obtain r s' where res: "self_put E path payload p s = (r, s')"
    by (cases "self_put E path payload p s")
  have "self s' = self s \<and>
     (\<exists>k out. k \<le> max_retries E \<and>
        exchanges s' = exchanges s @
          replicate k (put_request (self s) path payload, ConnectionFailed) @
          [(put_request (self s) path payload, out)] \<and>
        r = body_result 200 path p out \<and> (out = ConnectionFailed \<longrightarrow> k = max_retries E))"
  proof (rule retry_shape [where c = "self s" and E = E and f = "put_body E path payload p"])
    show "put_body E path payload p s1 =
        attempt E (put_request (self s) path payload) (body_result 200 path p) s1"
      if "self s1 = self s" for s1
      using that by (simp add: put_body_attempt)
    show "connection_retry (max_retries E) (put_body E path payload p) s = (r, s')"
      using res by (simp add: self_put_def)
  qed simp_all
  then show ?thesis by (simp add: performs_def res)
qed

lemma self_get_after_failures:
  assumes "k \<le> max_retries E"
    and "after_failures E (get_request (self s) path kwargs) k (net s) = Some n1"
    and "transport E (get_request (self s) path kwargs) n1 = (Received resp, n2)"
  shows "self_get E path kwargs s =
     (get_result path (Received resp),
      s\<lparr>net := n2,
        exchanges := exchanges s @
          replicate k (get_request (self s) path kwargs, ConnectionFailed) @
          [(get_request (self s) path kwargs, Received resp)]\<rparr>)"
  unfolding self_get_def
proof (rule retry_after_failures [where c = "self s" and E = E])
  show "get_body E path kwargs s1 =
      attempt E (get_request (self s) path kwargs) (get_result path) s1"
    if "self s1 = self s" for s1
    using that by (simp add: get_body_attempt)
qed (use assms in simp_all)

lemma self_post_after_failures:
  assumes "k \<le> max_retries E"
    and "after_failures E (post_request (self s) path payload) k (net s) = Some n1"
    and "transport E (post_request (self s) path payload) n1 = (Received resp, n2)"
  shows "self_post E path payload p s =
     (body_result 201 path p (Received resp),
      s\<lparr>net := n2,
        exchanges := exchanges s @
          replicate k (post_request (self s) path payload, ConnectionFailed) @
          [(post_request (self s) path payload, Received resp)]\<rparr>)"
  unfolding self_post_def
proof (rule retry_after_failures [where c = "self s" and E = E])
  show "post_body E path payload p s1 =
      attempt E (post_request (self s) path payload) (body_result 201 path p) s1"
    if "self s1 = self s" for s1
    using that by (simp add: post_body_attempt)
qed (use assms in simp_all)

lemma self_put_after_failures:
  assumes "k \<le> max_retries E"
    and "after_failures E (put_request (self s) path payload) k (net s) = Some n1"
    and "transport E (put_request (self s) path payload) n1 = (Received resp, n2)"
  shows "self_put E path payload p s =
     (body_result 200 path p (Received resp),
      s\<lparr>net := n2,
        exchanges := exchanges s @
          replicate k (put_request (self s) path payload, ConnectionFailed) @
          [(put_request (self s) path payload, Received resp)]\<rparr>)"
  unfolding self_put_def
proof (rule retry_after_failures [where c = "self s" and E = E])
  show "put_body E path payload p s1 =
      attempt E (put_request (self s) path payload) (body_result 200 path p) s1"
    if "self s1 = self s" for s1
    using that by (simp add: put_body_attempt)
qed (use assms in simp_all)

subsection \<open>What follows from performing a request\<close>

lemma performs_made:
  assumes "performs E rq g s res"
  shows "\<exists>k out. k \<le> max_retries E \<and>
     made s res = replicate k (rq, ConnectionFailed) @ [(rq, out)] \<and>
     fst res = g out \<and> (out = ConnectionFailed \<longrightarrow> k = max_retries E)"
  using assms by (cases res) (auto simp: performs_def made_def)

lemma performs_self: "performs E rq g s res \<Longrightarrow> self (snd res) = self s"
  by (cases res) (simp add: performs_def)

lemma performs_exchanges:
  "performs E rq g s res \<Longrightarrow> exchanges (snd res) = exchanges s @ made s res"
  by (cases res) (auto simp: performs_def made_def)

lemma performs_requests:
  assumes "performs E rq g s res"
  shows "made s res \<noteq> [] \<and> length (made s res) \<le> Suc (max_retries E) \<and>
     (\<forall>x \<in> set (made s res). fst x = rq)"
  using performs_made [OF assms] by auto

lemma performs_last:
  assumes "performs E rq g s res"
  shows "fst res = g (snd (last (made s res))) \<and>
     (\<forall>x \<in> set (butlast (made s res)). snd x = ConnectionFailed) \<and>
     (snd (last (made s res)) = ConnectionFailed \<longrightarrow> length (made s res) = Suc (max_retries E))"
  using performs_made [OF assms] by auto

lemma performs_then:
  assumes "performs E rq g s m"
    and "\<And>out. g' out = (case g out of Inl e \<Rightarrow> Inl e | Inr p \<Rightarrow> h p)"
  shows "performs E rq g' s
     (case m of (Inl e, s') \<Rightarrow> (Inl e, s') | (Inr p, s') \<Rightarrow> (h p, s'))"
proof -
  obtain r s' where m: "m = (r, s')" by (cases m)
  from assms(1) obtain k out where self': "self s' = self s"
    and k: "k \<le> max_retries E"
      "exchanges s' = exchanges s @ replicate k (rq, ConnectionFailed) @ [(rq, out)]"
      "out = ConnectionFailed \<longrightarrow> k = max_retries E"
    and r: "r = g out"
    unfolding m performs_def by auto
  have "(case m of (Inl e, s') \<Rightarrow> (Inl e, s') | (Inr p, s') \<Rightarrow> (h p, s')) = (g' out, s')"
    unfolding m using r by (cases "g out") (simp_all add: assms(2))
  then show ?thesis
    unfolding performs_def using self' k by auto
qed


section \<open>How the public operations behave\<close>

lemma op_result_get:
  "op_result sch 200 path out =
     (case get_result path out of Inl e \<Rightarrow> Inl e | Inr p \<Rightarrow> construct sch (Some p))"
  by (simp add: op_result_def get_result_def split: outcome.splits option.splits)

lemma op_result_body:
  "op_result sch ex path out =
     (case body_result ex path True out of Inl e \<Rightarrow> Inl e | Inr p \<Rightarrow> construct sch p)"
  by (simp add: op_result_def body_result_def split: outcome.splits option.splits)

lemma get_image_info_performs:
  "performs E
     (get_request (self s) (''/slides/'' @ slide_id @ ''/info'') (image_info_params extended phi))
     (op_result (ImageInfo_fields E) 200 (''/slides/'' @ slide_id @ ''/info'')) s
     (get_image_info E slide_id extended phi s)"
proof -
  have "get_image_info E slide_id extended phi s =
     (case self_get E (''/slides/'' @ slide_id @ ''/info'') (image_info_params extended phi) s of
        (Inl e, s') \<Rightarrow> (Inl e, s')
      | (Inr payload, s') \<Rightarrow> (construct (ImageInfo_fields E) (Some payload), s'))"
    unfolding get_image_info_def image_info_params_def by (simp add: Let_def)
  then show ?thesis
    using performs_then [OF self_get_performs op_result_get] by simp
qed

lemma create_results_performs:
  "performs E
     (post_request (self s) (''/applications/'' @ app_id (self s) @ ''/results'')
        (model_dump results))
     (op_result (ResultResponse_fields E) 201 (''/applications/'' @ app_id (self s) @ ''/results''))
     s (create_results E results s)"
  unfolding create_results_def Let_def
  by (rule performs_then [OF self_post_performs op_result_body])

lemma get_results_performs:
  "performs E
     (get_request (self s) (''/application/'' @ app_id (self s) @ ''/results/'' @ ident) [])
     (op_result (ResultResponse_fields E) 200
        (''/application/'' @ app_id (self s) @ ''/results/'' @ ident))
     s (get_results E ident s)"
  unfolding get_results_def Let_def
  by (rule performs_then [OF self_get_performs op_result_get])

lemma update_results_performs:
  "performs E
     (put_request (self s) (''/application/'' @ app_id (self s) @ ''/results/'' @ ident)
        (model_dump results))
     (op_result (ResultResponse_fields E) 200
        (''/application/'' @ app_id (self s) @ ''/results/'' @ ident))
     s (update_results E ident results s)"
  unfolding update_results_def Let_def
  by (rule performs_then [OF self_put_performs op_result_body])

lemma run_performs: "\<exists>rq g. req_headers rq = headers (self s) \<and> performs E rq g s (run E c s)"
proof (cases c)
  case (GetImageInfo slide_id extended phi)
  show ?thesis
    unfolding GetImageInfo run.simps
    apply (intro exI conjI)
     prefer 2
     apply (rule get_image_info_performs)
    apply (simp add: get_request_def)
    done
next
  case (CreateResults results)
  show ?thesis
    unfolding CreateResults run.simps
    apply (intro exI conjI)
     prefer 2
     apply (rule create_results_performs)
    apply (simp add: post_request_def)
    done
next
  case (GetResults ident)
  show ?thesis
    unfolding GetResults run.simps
    apply (intro exI conjI)
     prefer 2
     apply (rule get_results_performs)
    apply (simp add: get_request_def)
    done
next
  case (UpdateResults ident results)
  show ?thesis
    unfolding UpdateResults run.simps
    apply (intro exI conjI)
     prefer 2
     apply (rule update_results_performs)
    apply (simp add: put_request_def)
    done
qed

lemma run_all_headers:
  "self (run_all E cs s) = self s \<and>
   (\<exists>ys. exchanges (run_all E cs s) = exchanges s @ ys \<and> length cs \<le> length ys \<and>
      (\<forall>x \<in> set ys. req_headers (fst x) = headers (self s)))"
proof (induction cs arbitrary: s)
  case Nil
  show ?case by simp
next
  case (Cons c cs)
  obtain rq g where h: "req_headers rq = headers (self s)" and p: "performs E rq g s (run E c s)"
    using run_performs by blast
  let ?s1 = "snd (run E c s)"
  have self1: "self ?s1 = self s" by (rule performs_self [OF p])
  have ex1: "exchanges ?s1 = exchanges s @ made s (run E c s)" by (rule performs_exchanges [OF p])
  from performs_requests [OF p] have m: "made s (run E c s) \<noteq> []"
    "\<forall>x \<in> set (made s (run E c s)). fst x = rq" by auto
  from Cons.IH [of ?s1] obtain ys where
    ys: "exchanges (run_all E cs ?s1) = exchanges ?s1 @ ys" "length cs \<le> length ys"
      "\<forall>x \<in> set ys. req_headers (fst x) = headers (self ?s1)"
    and s: "self (run_all E cs ?s1) = self ?s1" by blast
  have "exchanges (run_all E (c # cs) s) = exchanges s @ (made s (run E c s) @ ys)"
    using ys(1) ex1 by simp
  moreover have "length (c # cs) \<le> length (made s (run E c s) @ ys)"
    using m(1) ys(2) by (cases "made s (run E c s)") auto
  moreover have "\<forall>x \<in> set (made s (run E c s) @ ys). req_headers (fst x) = headers (self s)"
    using m(2) ys(3) h self1 by auto
  ultimately show ?case using s self1 by auto
qed

section \<open>How construction behaves\<close>

lemma validate_ApplicationInfo:
  "validate ApplicationInfo_fields d =
     (case (map_of d ''apiVersion'', map_of d ''softwareVersion'') of
        (Some (JStr a), Some (JStr b)) \<Rightarrow>
          Some [(''apiVersion'', JStr a), (''softwareVersion'', JStr b)]
      | _ \<Rightarrow> None)"
proof -
  have t: "has_type TStr v = (\<exists>x. v = JStr x)" for v by (cases v) simp_all
  show ?thesis
    by (auto simp: ApplicationInfo_fields_def t split: option.splits json.splits)
qed

lemma new_ApplicationInfo_dict:
  "new_ApplicationInfo (Some (JDict d)) =
     (case validate ApplicationInfo_fields d of
        None \<Rightarrow> Inl ValidationError
      | Some rec \<Rightarrow>
          (case (map_of d ''apiVersion'', map_of d ''softwareVersion'') of
             (Some (JStr a), Some (JStr b)) \<Rightarrow> Inr \<lparr>apiVersion = a, softwareVersion = b\<rparr>
           | _ \<Rightarrow> Inl ValidationError))"
  by (auto simp: new_ApplicationInfo_def construct_def unpack_def validate_ApplicationInfo
      split: option.splits json.splits)

lemma new_ApplicationInfo_Inr:
  assumes "new_ApplicationInfo (Some j) = Inr v"
  shows "\<exists>d. j = JDict d \<and> validate ApplicationInfo_fields d \<noteq> None \<and>
     map_of d ''apiVersion'' = Some (JStr (apiVersion v)) \<and>
     map_of d ''softwareVersion'' = Some (JStr (softwareVersion v))"
proof (cases j)
  case (JDict d)
  with assms show ?thesis
    by (auto simp: new_ApplicationInfo_dict validate_ApplicationInfo
        split: option.splits json.splits)
qed (use assms in \<open>simp_all add: new_ApplicationInfo_def construct_def unpack_def\<close>)

lemma new_ApplicationInfo_invalid:
  "validate ApplicationInfo_fields d = None \<Longrightarrow>
     new_ApplicationInfo (Some (JDict d)) = Inl ValidationError"
  by (simp add: new_ApplicationInfo_dict)

lemma new_ApplicationInfo_valid:
  "validate ApplicationInfo_fields d \<noteq> None \<Longrightarrow> \<exists>v. new_ApplicationInfo (Some (JDict d)) = Inr v"
  by (auto simp: new_ApplicationInfo_dict validate_ApplicationInfo
      split: option.splits json.splits)

lemma new_ApplicationInfo_not_dict:
  "(\<And>d. j \<noteq> JDict d) \<Longrightarrow> new_ApplicationInfo (Some j) = Inl TypeError"
  by (cases j) (auto simp: new_ApplicationInfo_def construct_def unpack_def)

text \<open>
  Construction performs the request for \<^verbatim>\<open>/info\<close> with the fresh client, and its result
  is read off the last exchange.
\<close>

lemma new_IDS7AIClient_shape:
  assumes "new_IDS7AIClient E u t a n xs = (r, n', xs')"
  shows "\<exists>k out. k \<le> max_retries E \<and>
     xs' = xs @ replicate k (get_request (fresh_client u t a) ''/info'' [], ConnectionFailed) @
             [(get_request (fresh_client u t a) ''/info'' [], out)] \<and>
     (out = ConnectionFailed \<longrightarrow> k = max_retries E) \<and>
     r = (case get_result ''/info'' out of
            Inl e \<Rightarrow> Inl e
          | Inr j \<Rightarrow>
              (case new_ApplicationInfo (Some j) of
                 Inl e \<Rightarrow> Inl e
               | Inr v \<Rightarrow>
                   Inr \<lparr>url = u, token = t, app_id = a,
                        headers = [(''Authorization'', ''Bearer '' @ t),
                                   (''X-Sectra-ApiVersion'', apiVersion v),
                                   (''X-Sectra-SoftwareVersion'', softwareVersion v)],
                        ids7_version = Some v\<rparr>))"
proof -
  let ?s0 = "\<lparr>self = fresh_client u t a, net = n, exchanges = xs\<rparr>"
  let ?rq = "get_request (fresh_client u t a) ''/info'' []"
  obtain r1 s1 where g: "self_get E ''/info'' [] ?s0 = (r1, s1)"
    by (cases "self_get E ''/info'' [] ?s0")
  from self_get_performs [of E ?s0 "''/info''" "[]"] g
  obtain k out where self1: "self s1 = fresh_client u t a"
    and k: "k \<le> max_retries E" "out = ConnectionFailed \<longrightarrow> k = max_retries E"
    and ex: "exchanges s1 = xs @ replicate k (?rq, ConnectionFailed) @ [(?rq, out)]"
    and r1: "r1 = get_result ''/info'' out"
    by (auto simp: performs_def)
  have s0: "\<lparr>self = \<lparr>url = u, token = t, app_id = a,
                      headers = [(''Authorization'', ''Bearer '' @ t)],
                      ids7_version = None\<rparr>, net = n, exchanges = xs\<rparr> = ?s0"
    by (simp add: fresh_client_def)
  have "r = (case r1 of
            Inl e \<Rightarrow> Inl e
          | Inr j \<Rightarrow>
              (case new_ApplicationInfo (Some j) of
                 Inl e \<Rightarrow> Inl e
               | Inr v \<Rightarrow>
                   Inr \<lparr>url = u, token = t, app_id = a,
                        headers = [(''Authorization'', ''Bearer '' @ t),
                                   (''X-Sectra-ApiVersion'', apiVersion v),
                                   (''X-Sectra-SoftwareVersion'', softwareVersion v)],
                        ids7_version = Some v\<rparr>)) \<and> xs' = exchanges s1"
    using assms g self1
    unfolding new_IDS7AIClient_def init_def retrieve_ids7_versions_def Let_def s0
    by (auto simp: fresh_client_def split: sum.splits)
  then show ?thesis using k ex r1 by blast
qed


section \<open>The claims\<close>

text \<open>Unfolding the embedding on a concrete input.\<close>

lemmas client_defs =
  new_IDS7AIClient_def init_def retrieve_ids7_versions_def new_ApplicationInfo_def
  ApplicationInfo_fields_def construct_def unpack_def model_dump_def
  get_image_info_def create_results_def get_results_def update_results_def
  self_get_def self_post_def self_put_def get_body_def post_body_def put_body_def
  requests_get_def requests_post_def requests_put_def send_def Let_def

lemmas demo_defs =
  demo_env_def scripted_def demo_state_def demo_client_def info_ok_def fresh_client_def
  get_request_def post_request_def put_request_def made_def numeral_2_eq_2


text \<open>
  C1. For every client constructed from a valid \<^verbatim>\<open>/info\<close> response, construction leaves
  the header set with \<^verbatim>\<open>Authorization: Bearer <token>\<close>, \<^verbatim>\<open>X-Sectra-ApiVersion\<close> set
  to the response's \<^verbatim>\<open>apiVersion\<close> and \<^verbatim>\<open>X-Sectra-SoftwareVersion\<close> set to its
  \<^verbatim>\<open>softwareVersion\<close>; and whatever sequence of public operations is then called on the
  client, from whatever state of the remote side, every request they issue carries exactly
  this header set, each call issues at least one request, and the client stays as it was.
\<close>

theorem version_headers_attached:
  assumes "new_IDS7AIClient E u t a n xs = (Inr c, n', xs')"
  shows "(\<exists>resp d av sv.
            snd (last xs') = Received resp \<and> resp_json resp = Some (JDict d) \<and>
            map_of d ''apiVersion'' = Some (JStr av) \<and>
            map_of d ''softwareVersion'' = Some (JStr sv) \<and>
            headers c = [(''Authorization'', ''Bearer '' @ t),
                         (''X-Sectra-ApiVersion'', av),
                         (''X-Sectra-SoftwareVersion'', sv)]) \<and>
         (\<forall>s calls. self s = c \<longrightarrow>
            self (run_all E calls s) = c \<and>
            take (length (exchanges s)) (exchanges (run_all E calls s)) = exchanges s \<and>
            length (exchanges s) + length calls \<le> length (exchanges (run_all E calls s)) \<and>
            (\<forall>x \<in> set (drop (length (exchanges s)) (exchanges (run_all E calls s))).
               req_headers (fst x) = headers c))"
proof (intro conjI allI impI)
  from new_IDS7AIClient_shape [OF assms] obtain k out where
    xs': "xs' = xs @ replicate k (get_request (fresh_client u t a) ''/info'' [], ConnectionFailed) @
             [(get_request (fresh_client u t a) ''/info'' [], out)]"
    and r: "Inr c = (case get_result ''/info'' out of
            Inl e \<Rightarrow> Inl e
          | Inr j \<Rightarrow>
              (case new_ApplicationInfo (Some j) of
                 Inl e \<Rightarrow> Inl e
               | Inr v \<Rightarrow>
                   Inr \<lparr>url = u, token = t, app_id = a,
                        headers = [(''Authorization'', ''Bearer '' @ t),
                                   (''X-Sectra-ApiVersion'', apiVersion v),
                                   (''X-Sectra-SoftwareVersion'', softwareVersion v)],
                        ids7_version = Some v\<rparr>))"
    by blast
  from r obtain j where j: "get_result ''/info'' out = Inr j"
    by (cases "get_result ''/info'' out") simp_all
  with r obtain v where v: "new_ApplicationInfo (Some j) = Inr v"
    and c: "headers c = [(''Authorization'', ''Bearer '' @ t),
                         (''X-Sectra-ApiVersion'', apiVersion v),
                         (''X-Sectra-SoftwareVersion'', softwareVersion v)]"
    by (cases "new_ApplicationInfo (Some j)") auto
  from j obtain resp where resp: "out = Received resp" "resp_json resp = Some j"
    by (cases out) (auto simp: get_result_def split: if_splits option.splits)
  from new_ApplicationInfo_Inr [OF v] obtain d where d: "j = JDict d"
    "map_of d ''apiVersion'' = Some (JStr (apiVersion v))"
    "map_of d ''softwareVersion'' = Some (JStr (softwareVersion v))"
    by blast
  have "snd (last xs') = Received resp" using xs' resp by simp
  with resp d c
  show "\<exists>resp d av sv.
            snd (last xs') = Received resp \<and> resp_json resp = Some (JDict d) \<and>
            map_of d ''apiVersion'' = Some (JStr av) \<and>
            map_of d ''softwareVersion'' = Some (JStr sv) \<and>
            headers c = [(''Authorization'', ''Bearer '' @ t),
                         (''X-Sectra-ApiVersion'', av),
                         (''X-Sectra-SoftwareVersion'', sv)]"
    by blast
next
  fix s :: "'a state" and calls
  assume s: "self s = c"
  from run_all_headers [of E calls s] obtain ys where
    ys: "self (run_all E calls s) = self s"
      "exchanges (run_all E calls s) = exchanges s @ ys" "length calls \<le> length ys"
      "\<forall>x \<in> set ys. req_headers (fst x) = headers (self s)"
    by blast
  show "self (run_all E calls s) = c" using ys(1) s by simp
  show "take (length (exchanges s)) (exchanges (run_all E calls s)) = exchanges s"
    using ys(2) by simp
  show "length (exchanges s) + length calls \<le> length (exchanges (run_all E calls s))"
    using ys(2,3) by simp
  show "\<forall>x \<in> set (drop (length (exchanges s)) (exchanges (run_all E calls s))).
          req_headers (fst x) = headers c"
    using ys(2,4) s by simp
qed

theorem version_headers_attached_witness:
  "new_IDS7AIClient demo_env ''https://ids7'' ''tok'' ''app'' [ConnectionFailed, Received info_ok] [] =
     (Inr demo_client, [],
      [(get_request (fresh_client ''https://ids7'' ''tok'' ''app'') ''/info'' [], ConnectionFailed),
       (get_request (fresh_client ''https://ids7'' ''tok'' ''app'') ''/info'' [], Received info_ok)]) \<and>
   headers demo_client =
     [(''Authorization'', ''Bearer tok''), (''X-Sectra-ApiVersion'', ''1.0''),
      (''X-Sectra-SoftwareVersion'', ''7.2'')] \<and>
   map (\<lambda>x. req_headers (fst x))
     (exchanges (run_all demo_env [GetResults ''r1'', GetImageInfo ''s1'' True False]
        (demo_state [Received \<lparr>resp_status_code = 404, resp_text = ''no'', resp_json = None\<rparr>]))) =
     [headers demo_client, headers demo_client, headers demo_client, headers demo_client]"
proof -
  have h: "new_IDS7AIClient demo_env ''https://ids7'' ''tok'' ''app''
       [ConnectionFailed, Received info_ok] [] =
     (Inr demo_client, [],
      [(get_request (fresh_client ''https://ids7'' ''tok'' ''app'') ''/info'' [], ConnectionFailed),
       (get_request (fresh_client ''https://ids7'' ''tok'' ''app'') ''/info'' [], Received info_ok)])"
    by (simp add: client_defs demo_defs)
  have e: "map (\<lambda>x. req_headers (fst x))
     (exchanges (run_all demo_env [GetResults ''r1'', GetImageInfo ''s1'' True False]
        (demo_state [Received \<lparr>resp_status_code = 404, resp_text = ''no'', resp_json = None\<rparr>]))) =
     [headers demo_client, headers demo_client, headers demo_client, headers demo_client]"
    by (simp add: client_defs demo_defs)
  from version_headers_attached [OF h] h e show ?thesis
    by (simp add: demo_client_def)
qed


text \<open>
  C2. For every \<^verbatim>\<open>slide_id\<close> and every pair of booleans \<^verbatim>\<open>extended\<close> and \<^verbatim>\<open>phi\<close>,
  \<^verbatim>\<open>get_image_info\<close> issues GET \<^verbatim>\<open>/slides/{slide_id}/info\<close> (at least one request, and
  every request it issues is this one) whose query parameters are \<^verbatim>\<open>scope=extended\<close>
  exactly when \<^verbatim>\<open>extended\<close> is true and \<^verbatim>\<open>includePHI=true\<close> exactly when \<^verbatim>\<open>phi\<close> is
  true; when a flag is false its key is absent.
\<close>

theorem get_image_info_query:
  "made s (get_image_info E slide_id extended phi s) \<noteq> [] \<and>
   (\<forall>x \<in> set (made s (get_image_info E slide_id extended phi s)).
      req_method (fst x) = GET \<and>
      req_url (fst x) = url (self s) @ ''/slides/'' @ slide_id @ ''/info'' \<and>
      req_params (fst x) =
        (if extended then [(''scope'', ''extended'')] else []) @
        (if phi then [(''includePHI'', ''true'')] else []) \<and>
      map_of (req_params (fst x)) ''scope'' = (if extended then Some ''extended'' else None) \<and>
      map_of (req_params (fst x)) ''includePHI'' = (if phi then Some ''true'' else None) \<and>
      (''scope'' \<in> fst ` set (req_params (fst x)) \<longleftrightarrow> extended) \<and>
      (''includePHI'' \<in> fst ` set (req_params (fst x)) \<longleftrightarrow> phi))"
proof -
  let ?rq = "get_request (self s) (''/slides/'' @ slide_id @ ''/info'')
      (image_info_params extended phi)"
  from performs_requests [OF get_image_info_performs [of E s slide_id extended phi]]
  have m: "made s (get_image_info E slide_id extended phi s) \<noteq> []"
    "\<forall>x \<in> set (made s (get_image_info E slide_id extended phi s)). fst x = ?rq"
    by auto
  have "req_method ?rq = GET \<and>
      req_url ?rq = url (self s) @ ''/slides/'' @ slide_id @ ''/info'' \<and>
      req_params ?rq =
        (if extended then [(''scope'', ''extended'')] else []) @
        (if phi then [(''includePHI'', ''true'')] else []) \<and>
      map_of (req_params ?rq) ''scope'' = (if extended then Some ''extended'' else None) \<and>
      map_of (req_params ?rq) ''includePHI'' = (if phi then Some ''true'' else None) \<and>
      (''scope'' \<in> fst ` set (req_params ?rq) \<longleftrightarrow> extended) \<and>
      (''includePHI'' \<in> fst ` set (req_params ?rq) \<longleftrightarrow> phi)"
    by (simp add: get_request_def image_info_params_def)
  with m show ?thesis by simp
qed

theorem get_image_info_query_witness:
  "map (\<lambda>x. (req_method (fst x), req_url (fst x), req_params (fst x)))
     (made (demo_state [Received info_ok])
        (get_image_info demo_env ''s1'' True False (demo_state [Received info_ok]))) =
     [(GET, ''https://ids7/slides/s1/info'', [(''scope'', ''extended'')])] \<and>
   map (\<lambda>x. (req_method (fst x), req_url (fst x), req_params (fst x)))
     (made (demo_state [Received info_ok])
        (get_image_info demo_env ''s1'' False True (demo_state [Received info_ok]))) =
     [(GET, ''https://ids7/slides/s1/info'', [(''includePHI'', ''true'')])] \<and>
   map (\<lambda>x. (req_method (fst x), req_url (fst x), req_params (fst x)))
     (made (demo_state [Received info_ok])
        (get_image_info demo_env ''s1'' False False (demo_state [Received info_ok]))) =
     [(GET, ''https://ids7/slides/s1/info'', [])] \<and>
   map (\<lambda>x. (req_method (fst x), req_url (fst x), req_params (fst x)))
     (made (demo_state [Received info_ok])
        (get_image_info demo_env ''s1'' True True (demo_state [Received info_ok]))) =
     [(GET, ''https://ids7/slides/s1/info'', [(''scope'', ''extended''), (''includePHI'', ''true'')])]"
  using get_image_info_query [of "demo_state [Received info_ok]" demo_env "''s1''" True False]
  by (simp add: client_defs demo_defs)

lemma construct_not_request_error: "\<not> is_request_error (construct sch payload)"
  by (simp add: construct_def unpack_def is_request_error_def
      split: option.splits json.splits sum.splits)

lemma op_result_request_error:
  "(case out of
      ConnectionFailed \<Rightarrow> \<not> is_request_error (op_result sch expected path out)
    | Received resp \<Rightarrow>
        if resp_status_code resp \<noteq> expected
        then op_result sch expected path out =
          Inl (IDS7RequestError (resp_status_code resp) (resp_text resp) path)
        else \<not> is_request_error (op_result sch expected path out))"
  using construct_not_request_error [of sch]
  by (simp add: op_result_def is_request_error_def split: outcome.splits option.splits)

lemma performs_request_error:
  assumes "performs E rq (op_result sch expected path) s res"
  shows "request_error_exactly expected path (made s res) (fst res)"
proof -
  from performs_made [OF assms] obtain k out where
    m: "made s res = replicate k (rq, ConnectionFailed) @ [(rq, out)]"
    and r: "fst res = op_result sch expected path out"
    by blast
  have "\<forall>x \<in> set (butlast (made s res)). snd x = ConnectionFailed"
    using m by (simp add: butlast_append)
  moreover have "snd (last (made s res)) = out" using m by simp
  ultimately show ?thesis
    unfolding request_error_exactly_def r
    using m op_result_request_error [where out = out and sch = sch and expected = expected and path = path] by simp
qed

lemma new_ApplicationInfo_not_request_error:
  "\<not> is_request_error
     (case new_ApplicationInfo payload of Inl e \<Rightarrow> Inl e | Inr v \<Rightarrow> Inr (f v))"
  using construct_not_request_error [of ApplicationInfo_fields payload]
  by (auto simp: new_ApplicationInfo_def is_request_error_def
      split: sum.splits option.splits json.splits error.splits)

lemma new_IDS7AIClient_request_error:
  "request_error_exactly 200 ''/info''
     (drop (length xs) (snd (snd (new_IDS7AIClient E u t a n xs))))
     (fst (new_IDS7AIClient E u t a n xs))"
proof -
  obtain r n' xs' where res: "new_IDS7AIClient E u t a n xs = (r, n', xs')"
    by (cases "new_IDS7AIClient E u t a n xs")
  let ?rq = "get_request (fresh_client u t a) ''/info'' []"
  let ?f = "\<lambda>v. \<lparr>url = u, token = t, app_id = a,
                        headers = [(''Authorization'', ''Bearer '' @ t),
                                   (''X-Sectra-ApiVersion'', apiVersion v),
                                   (''X-Sectra-SoftwareVersion'', softwareVersion v)],
                        ids7_version = Some v\<rparr>"
  from new_IDS7AIClient_shape [OF res] obtain k out where
    xs': "xs' = xs @ replicate k (?rq, ConnectionFailed) @ [(?rq, out)]"
    and r: "r = (case get_result ''/info'' out of
            Inl e \<Rightarrow> Inl e
          | Inr j \<Rightarrow>
              (case new_ApplicationInfo (Some j) of Inl e \<Rightarrow> Inl e | Inr v \<Rightarrow> Inr (?f v)))"
    by blast
  have d: "drop (length xs) xs' = replicate k (?rq, ConnectionFailed) @ [(?rq, out)]"
    using xs' by simp
  have "case out of
      ConnectionFailed \<Rightarrow> \<not> is_request_error r
    | Received resp \<Rightarrow>
        if resp_status_code resp \<noteq> 200
        then r = Inl (IDS7RequestError (resp_status_code resp) (resp_text resp) ''/info'')
        else \<not> is_request_error r"
  proof (cases out)
    case ConnectionFailed
    then show ?thesis using r by (simp add: is_request_error_def)
  next
    case (Received resp)
    show ?thesis
    proof (cases "resp_status_code resp = 200")
      case False
      then show ?thesis using r Received by (simp add: get_result_def)
    next
      case True
      show ?thesis
      proof (cases "resp_json resp")
        case None
        then show ?thesis using r Received True by (simp add: get_result_def is_request_error_def)
      next
        case (Some j)
        then have "r = (case new_ApplicationInfo (Some j) of Inl e \<Rightarrow> Inl e | Inr v \<Rightarrow> Inr (?f v))"
          using r Received True by (simp add: get_result_def)
        then show ?thesis
          using new_ApplicationInfo_not_request_error [where payload = "Some j" and f = ?f] Received True by simp
      qed
    qed
  qed
  then show ?thesis
    unfolding request_error_exactly_def res using d
    by (cases out) (simp_all add: butlast_append)
qed

text \<open>
  C3. For every operation and every received HTTP response, the operation raises the
  request error carrying the status code and the raw text of the response and the path
  of the request exactly when the status differs from the success status the operation
  expects: 200 for \<^verbatim>\<open>get_image_info\<close>, \<^verbatim>\<open>get_results\<close>, \<^verbatim>\<open>update_results\<close> and the
  \<^verbatim>\<open>/info\<close> call of the constructor, 201 for \<^verbatim>\<open>create_results\<close>. On the expected
  status no request error is raised. (The only exchange of an operation that receives a
  response is its last one.)
\<close>

theorem request_error_iff_unexpected_status:
  "request_error_exactly 200 (''/slides/'' @ slide_id @ ''/info'')
     (made s (get_image_info E slide_id extended phi s))
     (fst (get_image_info E slide_id extended phi s)) \<and>
   request_error_exactly 201 (''/applications/'' @ app_id (self s) @ ''/results'')
     (made s (create_results E results s)) (fst (create_results E results s)) \<and>
   request_error_exactly 200 (''/application/'' @ app_id (self s) @ ''/results/'' @ ident)
     (made s (get_results E ident s)) (fst (get_results E ident s)) \<and>
   request_error_exactly 200 (''/application/'' @ app_id (self s) @ ''/results/'' @ ident)
     (made s (update_results E ident results s)) (fst (update_results E ident results s)) \<and>
   request_error_exactly 200 ''/info''
     (drop (length xs) (snd (snd (new_IDS7AIClient E u t a n xs))))
     (fst (new_IDS7AIClient E u t a n xs))"
  by (intro conjI performs_request_error [OF get_image_info_performs]
      performs_request_error [OF create_results_performs]
      performs_request_error [OF get_results_performs]
      performs_request_error [OF update_results_performs]
      new_IDS7AIClient_request_error)

theorem request_error_iff_unexpected_status_witness:
  "fst (create_results demo_env [(''score'', JInt 1)]
      (demo_state [Received \<lparr>resp_status_code = 500, resp_text = ''boom'', resp_json = None\<rparr>])) =
     Inl (IDS7RequestError 500 ''boom'' ''/applications/app/results'') \<and>
   fst (create_results demo_env [(''score'', JInt 1)]
      (demo_state [Received \<lparr>resp_status_code = 200, resp_text = ''ok'',
         resp_json = Some (JDict [(''id'', JStr ''abc123'')])\<rparr>])) =
     Inl (IDS7RequestError 200 ''ok'' ''/applications/app/results'') \<and>
   fst (create_results demo_env [(''score'', JInt 1)]
      (demo_state [Received \<lparr>resp_status_code = 201, resp_text = ''ok'',
         resp_json = Some (JDict [(''id'', JStr ''abc123''), (''score'', JInt 1)])\<rparr>])) =
     Inr [(''id'', JStr ''abc123'')] \<and>
   fst (get_results demo_env ''abc123''
      (demo_state [Received \<lparr>resp_status_code = 201, resp_text = ''ok'',
         resp_json = Some (JDict [(''id'', JStr ''abc123'')])\<rparr>])) =
     Inl (IDS7RequestError 201 ''ok'' ''/application/app/results/abc123'') \<and>
   fst (new_IDS7AIClient demo_env ''https://ids7'' ''tok'' ''app''
      [Received \<lparr>resp_status_code = 401, resp_text = ''denied'', resp_json = None\<rparr>] []) =
     Inl (IDS7RequestError 401 ''denied'' ''/info'')"
  using request_error_iff_unexpected_status
    [where s = "demo_state [Received \<lparr>resp_status_code = 500, resp_text = ''boom'',
        resp_json = None\<rparr>]" and E = demo_env and results = "[(''score'', JInt 1)]"
        and xs = "[]" and u = "''https://ids7''" and t = "''tok''" and a = "''app''"
        and n = "[Received \<lparr>resp_status_code = 401, resp_text = ''denied'', resp_json = None\<rparr>]"]
  by (simp add: client_defs demo_defs)

lemma validate_None: "validate sch d = None \<longleftrightarrow> missing_or_wrong_type sch d"
proof (induction sch)
  case Nil
  show ?case by (simp add: missing_or_wrong_type_def)
next
  case (Cons f sch)
  obtain k t where f: "f = (k, t)" by (cases f)
  show ?case
    using Cons.IH unfolding f
    by (cases "map_of d k") (auto simp: missing_or_wrong_type_def)
qed

lemma construct_invalid:
  "missing_or_wrong_type sch d \<Longrightarrow> construct sch (Some (JDict d)) = Inl ValidationError"
  using validate_None [of sch d] by (simp add: construct_def unpack_def)

lemma last_exchange_only:
  assumes "i < Suc k"
    and "snd ((replicate k (rq, ConnectionFailed) @ [(rq, out)]) ! i) = Received resp"
  shows "i = k \<and> out = Received resp"
  using assms by (cases "i < k") (auto simp: nth_append)

lemma performs_validation:
  assumes "performs E rq (op_result sch expected path) s res"
  shows "validation_failure_final expected sch (made s res) (fst res)"
  unfolding validation_failure_final_def
proof (intro allI impI)
  fix i resp d
  assume a: "i < length (made s res) \<and> snd (made s res ! i) = Received resp \<and>
    resp_status_code resp = expected \<and> resp_json resp = Some (JDict d) \<and>
    missing_or_wrong_type sch d"
  from performs_made [OF assms] obtain k out where
    m: "made s res = replicate k (rq, ConnectionFailed) @ [(rq, out)]"
    and r: "fst res = op_result sch expected path out"
    by blast
  from a m have "i = k \<and> out = Received resp"
    by (intro last_exchange_only [where rq = rq]) simp_all
  then show "fst res = Inl ValidationError \<and> Suc i = length (made s res)"
    using a m r by (simp add: op_result_def construct_invalid)
qed

lemma new_IDS7AIClient_validation:
  "validation_failure_final 200 ApplicationInfo_fields
     (drop (length xs) (snd (snd (new_IDS7AIClient E u t a n xs))))
     (fst (new_IDS7AIClient E u t a n xs))"
  unfolding validation_failure_final_def
proof (intro allI impI)
  fix i resp d
  let ?res = "new_IDS7AIClient E u t a n xs"
  let ?rq = "get_request (fresh_client u t a) ''/info'' []"
  assume a: "i < length (drop (length xs) (snd (snd ?res))) \<and>
    snd (drop (length xs) (snd (snd ?res)) ! i) = Received resp \<and>
    resp_status_code resp = 200 \<and> resp_json resp = Some (JDict d) \<and>
    missing_or_wrong_type ApplicationInfo_fields d"
  obtain r n' xs' where res: "?res = (r, n', xs')" by (cases ?res)
  from new_IDS7AIClient_shape [OF res] obtain k out where
    xs': "xs' = xs @ replicate k (?rq, ConnectionFailed) @ [(?rq, out)]"
    and r: "r = (case get_result ''/info'' out of
            Inl e \<Rightarrow> Inl e
          | Inr j \<Rightarrow>
              (case new_ApplicationInfo (Some j) of
                 Inl e \<Rightarrow> Inl e
               | Inr v \<Rightarrow>
                   Inr \<lparr>url = u, token = t, app_id = a,
                        headers = [(''Authorization'', ''Bearer '' @ t),
                                   (''X-Sectra-ApiVersion'', apiVersion v),
                                   (''X-Sectra-SoftwareVersion'', softwareVersion v)],
                        ids7_version = Some v\<rparr>))"
    by blast
  have d: "drop (length xs) (snd (snd ?res)) = replicate k (?rq, ConnectionFailed) @ [(?rq, out)]"
    using xs' res by simp
  from a d have "i = k \<and> out = Received resp"
    by (intro last_exchange_only [where rq = ?rq]) simp_all
  moreover have "new_ApplicationInfo (Some (JDict d)) = Inl ValidationError"
    using a by (simp add: new_ApplicationInfo_invalid validate_None)
  ultimately show "fst ?res = Inl ValidationError \<and>
      Suc i = length (drop (length xs) (snd (snd ?res)))"
    using a r unfolding d by (simp add: res get_result_def)
qed

lemma construct_non_object: "\<not> is_dict j \<Longrightarrow> construct sch (Some j) = Inl TypeError"
  by (cases j) (simp_all add: construct_def unpack_def)

lemma performs_non_object:
  assumes "performs E rq (op_result sch expected path) s res"
  shows "non_object_failure_final expected (made s res) (fst res)"
  unfolding non_object_failure_final_def
proof (intro allI impI)
  fix i resp j
  assume a: "i < length (made s res) \<and> snd (made s res ! i) = Received resp \<and>
    resp_status_code resp = expected \<and> resp_json resp = Some j \<and> \<not> is_dict j"
  from performs_made [OF assms] obtain k out where
    m: "made s res = replicate k (rq, ConnectionFailed) @ [(rq, out)]"
    and r: "fst res = op_result sch expected path out"
    by blast
  from a m have "i = k \<and> out = Received resp"
    by (intro last_exchange_only [where rq = rq]) simp_all
  then show "fst res = Inl TypeError \<and> Suc i = length (made s res)"
    using a m r by (simp add: op_result_def construct_non_object)
qed

lemma new_IDS7AIClient_non_object:
  "non_object_failure_final 200
     (drop (length xs) (snd (snd (new_IDS7AIClient E u t a n xs))))
     (fst (new_IDS7AIClient E u t a n xs))"
  unfolding non_object_failure_final_def
proof (intro allI impI)
  fix i resp j
  let ?res = "new_IDS7AIClient E u t a n xs"
  let ?rq = "get_request (fresh_client u t a) ''/info'' []"
  assume a: "i < length (drop (length xs) (snd (snd ?res))) \<and>
    snd (drop (length xs) (snd (snd ?res)) ! i) = Received resp \<and>
    resp_status_code resp = 200 \<and> resp_json resp = Some j \<and> \<not> is_dict j"
  obtain r n' xs' where res: "?res = (r, n', xs')" by (cases ?res)
  from new_IDS7AIClient_shape [OF res] obtain k out where
    xs': "xs' = xs @ replicate k (?rq, ConnectionFailed) @ [(?rq, out)]"
    and r: "r = (case get_result ''/info'' out of
            Inl e \<Rightarrow> Inl e
          | Inr j \<Rightarrow>
              (case new_ApplicationInfo (Some j) of
                 Inl e \<Rightarrow> Inl e
               | Inr v \<Rightarrow>
                   Inr \<lparr>url = u, token = t, app_id = a,
                        headers = [(''Authorization'', ''Bearer '' @ t),
                                   (''X-Sectra-ApiVersion'', apiVersion v),
                                   (''X-Sectra-SoftwareVersion'', softwareVersion v)],
                        ids7_version = Some v\<rparr>))"
    by blast
  have d: "drop (length xs) (snd (snd ?res)) = replicate k (?rq, ConnectionFailed) @ [(?rq, out)]"
    using xs' res by simp
  from a d have "i = k \<and> out = Received resp"
    by (intro last_exchange_only [where rq = ?rq]) simp_all
  moreover have "new_ApplicationInfo (Some j) = Inl TypeError"
    using a by (intro new_ApplicationInfo_not_dict) auto
  ultimately show "fst ?res = Inl TypeError \<and>
      Suc i = length (drop (length xs) (snd (snd ?res)))"
    using a r unfolding d by (simp add: res get_result_def)
qed

text \<open>
  C4, as amended. For every operation whose HTTP exchange returns the expected success
  status with a body that parses to a JSON object lacking a required field of the target
  record type (\<^verbatim>\<open>ImageInfo\<close> for \<^verbatim>\<open>get_image_info\<close>, \<^verbatim>\<open>ResultResponse\<close> for
  \<^verbatim>\<open>create_results\<close>, \<^verbatim>\<open>get_results\<close> and \<^verbatim>\<open>update_results\<close>, \<^verbatim>\<open>ApplicationInfo\<close> for
  the constructor), or having one of the wrong type, the operation raises the validation
  error. When the body parses to JSON that is not an object (a list, \<^verbatim>\<open>null\<close>, a string,
  a number), the operation raises the type error of the \<^verbatim>\<open>**\<close> unpacking instead.
  Neither is the request error or the connection error, and in both cases the exchange
  that received the response is the last one the operation makes: the failure is surfaced
  at once and nothing is retried.
\<close>

theorem validation_error_immediate:
  "validation_failure_final 200 (ImageInfo_fields E)
     (made s (get_image_info E slide_id extended phi s))
     (fst (get_image_info E slide_id extended phi s)) \<and>
   validation_failure_final 201 (ResultResponse_fields E)
     (made s (create_results E results s)) (fst (create_results E results s)) \<and>
   validation_failure_final 200 (ResultResponse_fields E)
     (made s (get_results E ident s)) (fst (get_results E ident s)) \<and>
   validation_failure_final 200 (ResultResponse_fields E)
     (made s (update_results E ident results s)) (fst (update_results E ident results s)) \<and>
   validation_failure_final 200 ApplicationInfo_fields
     (drop (length xs) (snd (snd (new_IDS7AIClient E u t a n xs))))
     (fst (new_IDS7AIClient E u t a n xs)) \<and>
   non_object_failure_final 200
     (made s (get_image_info E slide_id extended phi s))
     (fst (get_image_info E slide_id extended phi s)) \<and>
   non_object_failure_final 201
     (made s (create_results E results s)) (fst (create_results E results s)) \<and>
   non_object_failure_final 200
     (made s (get_results E ident s)) (fst (get_results E ident s)) \<and>
   non_object_failure_final 200
     (made s (update_results E ident results s)) (fst (update_results E ident results s)) \<and>
   non_object_failure_final 200
     (drop (length xs) (snd (snd (new_IDS7AIClient E u t a n xs))))
     (fst (new_IDS7AIClient E u t a n xs)) \<and>
   ValidationError \<noteq> IDS7RequestError code body path \<and>
   ValidationError \<noteq> ConnectionError \<and>
   TypeError \<noteq> IDS7RequestError code body path \<and>
   TypeError \<noteq> ConnectionError \<and>
   TypeError \<noteq> ValidationError"
  by (intro conjI performs_validation [OF get_image_info_performs]
      performs_validation [OF create_results_performs]
      performs_validation [OF get_results_performs]
      performs_validation [OF update_results_performs]
      new_IDS7AIClient_validation
      performs_non_object [OF get_image_info_performs]
      performs_non_object [OF create_results_performs]
      performs_non_object [OF get_results_performs]
      performs_non_object [OF update_results_performs]
      new_IDS7AIClient_non_object) simp_all

theorem validation_error_immediate_witness:
  "get_image_info demo_env ''s1'' False False
      (demo_state [Received \<lparr>resp_status_code = 200, resp_text = ''ok'',
         resp_json = Some (JDict [(''name'', JStr ''x'')])\<rparr>, Received info_ok]) =
     (Inl ValidationError,
      \<lparr>self = demo_client, net = [Received info_ok],
       exchanges = [(get_request demo_client ''/slides/s1/info'' [],
         Received \<lparr>resp_status_code = 200, resp_text = ''ok'',
           resp_json = Some (JDict [(''name'', JStr ''x'')])\<rparr>)]\<rparr>) \<and>
   fst (create_results demo_env [(''score'', JInt 1)]
      (demo_state [Received \<lparr>resp_status_code = 201, resp_text = ''ok'',
         resp_json = Some (JDict [(''id'', JInt 5)])\<rparr>])) = Inl ValidationError \<and>
   fst (new_IDS7AIClient demo_env ''https://ids7'' ''tok'' ''app''
      [Received \<lparr>resp_status_code = 200, resp_text = ''ok'',
         resp_json = Some (JDict [(''apiVersion'', JStr ''1.0'')])\<rparr>] []) = Inl ValidationError \<and>
   get_results demo_env ''abc123''
      (demo_state [Received \<lparr>resp_status_code = 200, resp_text = ''null'',
         resp_json = Some JNull\<rparr>, Received info_ok]) =
     (Inl TypeError,
      \<lparr>self = demo_client, net = [Received info_ok],
       exchanges = [(get_request demo_client ''/application/app/results/abc123'' [],
         Received \<lparr>resp_status_code = 200, resp_text = ''null'',
           resp_json = Some JNull\<rparr>)]\<rparr>)"
  using validation_error_immediate
    [where s = "demo_state [Received \<lparr>resp_status_code = 200, resp_text = ''ok'',
         resp_json = Some (JDict [(''name'', JStr ''x'')])\<rparr>, Received info_ok]"
       and E = demo_env and slide_id = "''s1''" and extended = False and phi = False]
  by (simp add: client_defs demo_defs)

text \<open>
  The claim as first stated, for any body that lacks a required field, fails: answered
  with status 200 and the body \<^verbatim>\<open>[]\<close>, which has no field \<^verbatim>\<open>id\<close>, \<^verbatim>\<open>get_image_info\<close>
  raises the type error, not the validation error.
\<close>

theorem validation_error_counterexample:
  "fst (get_image_info demo_env ''s1'' False False
      (demo_state [Received \<lparr>resp_status_code = 200, resp_text = ''[]'',
         resp_json = Some (JList [])\<rparr>])) = Inl TypeError \<and>
   fst (get_image_info demo_env ''s1'' False False
      (demo_state [Received \<lparr>resp_status_code = 200, resp_text = ''[]'',
         resp_json = Some (JList [])\<rparr>])) \<noteq> Inl ValidationError"
  by (simp add: client_defs demo_defs)

text \<open>
  C5. \<^verbatim>\<open>create_results\<close> issues its request (POST) to
  \<^verbatim>\<open>/applications/{app_id}/results\<close>, plural and with no result id, while
  \<^verbatim>\<open>get_results\<close> (GET) and \<^verbatim>\<open>update_results\<close> (PUT) both issue theirs to
  \<^verbatim>\<open>/application/{app_id}/results/{id}\<close>, singular. Each operation issues at least one
  request, and every request it issues goes to that path under the base URL.
\<close>

theorem results_paths:
  "made s (create_results E results s) \<noteq> [] \<and>
   (\<forall>x \<in> set (made s (create_results E results s)).
      req_method (fst x) = POST \<and>
      req_url (fst x) = url (self s) @ ''/applications/'' @ app_id (self s) @ ''/results'') \<and>
   made s (get_results E ident s) \<noteq> [] \<and>
   (\<forall>x \<in> set (made s (get_results E ident s)).
      req_method (fst x) = GET \<and>
      req_url (fst x) = url (self s) @ ''/application/'' @ app_id (self s) @ ''/results/'' @ ident) \<and>
   made s (update_results E ident results s) \<noteq> [] \<and>
   (\<forall>x \<in> set (made s (update_results E ident results s)).
      req_method (fst x) = PUT \<and>
      req_url (fst x) = url (self s) @ ''/application/'' @ app_id (self s) @ ''/results/'' @ ident)"
proof -
  from performs_requests [OF create_results_performs [of E s results]]
  have c: "made s (create_results E results s) \<noteq> []"
    "\<forall>x \<in> set (made s (create_results E results s)).
       fst x = post_request (self s) (''/applications/'' @ app_id (self s) @ ''/results'')
         (model_dump results)"
    by auto
  from performs_requests [OF get_results_performs [of E s ident]]
  have g: "made s (get_results E ident s) \<noteq> []"
    "\<forall>x \<in> set (made s (get_results E ident s)).
       fst x = get_request (self s) (''/application/'' @ app_id (self s) @ ''/results/'' @ ident) []"
    by auto
  from performs_requests [OF update_results_performs [of E s ident results]]
  have u: "made s (update_results E ident results s) \<noteq> []"
    "\<forall>x \<in> set (made s (update_results E ident results s)).
       fst x = put_request (self s) (''/application/'' @ app_id (self s) @ ''/results/'' @ ident)
         (model_dump results)"
    by auto
  show ?thesis
    using c g u by (simp add: post_request_def get_request_def put_request_def)
qed

theorem results_paths_witness:
  "map (\<lambda>x. (req_method (fst x), req_url (fst x)))
     (made (demo_state [Received info_ok])
        (create_results demo_env [(''score'', JInt 1)] (demo_state [Received info_ok]))) =
     [(POST, ''https://ids7/applications/app/results'')] \<and>
   map (\<lambda>x. (req_method (fst x), req_url (fst x)))
     (made (demo_state [Received info_ok])
        (get_results demo_env ''abc123'' (demo_state [Received info_ok]))) =
     [(GET, ''https://ids7/application/app/results/abc123'')] \<and>
   map (\<lambda>x. (req_method (fst x), req_url (fst x)))
     (made (demo_state [Received info_ok])
        (update_results demo_env ''abc123'' [(''score'', JInt 1)] (demo_state [Received info_ok]))) =
     [(PUT, ''https://ids7/application/app/results/abc123'')]"
  using results_paths [of "demo_state [Received info_ok]" demo_env "[(''score'', JInt 1)]" "''abc123''"]
  by (simp add: client_defs demo_defs)

lemma performs_retried:
  assumes "performs E rq g s res"
  shows "retried_on_connection_failure_only (max_retries E) (made s res)"
proof -
  from performs_made [OF assms] obtain k out where
    k: "k \<le> max_retries E" "out = ConnectionFailed \<longrightarrow> k = max_retries E"
    and m: "made s res = replicate k (rq, ConnectionFailed) @ [(rq, out)]"
    by blast
  have "fst (hd (made s res)) = rq" using m by (cases k) simp_all
  then show ?thesis
    unfolding retried_on_connection_failure_only_def
    using k m by (auto simp: butlast_append)
qed

lemma answers_afterD:
  assumes "answers_after E rq k n = Some resp"
  shows "\<exists>n1 n2. after_failures E rq k n = Some n1 \<and> transport E rq n1 = (Received resp, n2)"
proof -
  from assms obtain n1 where n1: "after_failures E rq k n = Some n1"
    and t: "fst (transport E rq n1) = Received resp"
    by (auto simp: answers_after_def split: option.splits outcome.splits)
  from t have "transport E rq n1 = (Received resp, snd (transport E rq n1))"
    by (cases "transport E rq n1") simp
  with n1 show ?thesis by blast
qed

lemma self_get_answers:
  assumes "k \<le> max_retries E"
    and "answers_after E (get_request (self s) path kwargs) k (net s) = Some resp"
  shows "fst (self_get E path kwargs s) = get_result path (Received resp) \<and>
     map snd (made s (self_get E path kwargs s)) = replicate k ConnectionFailed @ [Received resp]"
proof -
  from answers_afterD [OF assms(2)] obtain n1 n2 where
    "after_failures E (get_request (self s) path kwargs) k (net s) = Some n1"
    "transport E (get_request (self s) path kwargs) n1 = (Received resp, n2)"
    by blast
  from self_get_after_failures [OF assms(1) this] show ?thesis
    by (simp add: made_def)
qed

lemma self_post_answers:
  assumes "k \<le> max_retries E"
    and "answers_after E (post_request (self s) path payload) k (net s) = Some resp"
  shows "fst (self_post E path payload p s) = body_result 201 path p (Received resp) \<and>
     map snd (made s (self_post E path payload p s)) =
       replicate k ConnectionFailed @ [Received resp]"
proof -
  from answers_afterD [OF assms(2)] obtain n1 n2 where
    "after_failures E (post_request (self s) path payload) k (net s) = Some n1"
    "transport E (post_request (self s) path payload) n1 = (Received resp, n2)"
    by blast
  from self_post_after_failures [OF assms(1) this] show ?thesis
    by (simp add: made_def)
qed

lemma self_put_answers:
  assumes "k \<le> max_retries E"
    and "answers_after E (put_request (self s) path payload) k (net s) = Some resp"
  shows "fst (self_put E path payload p s) = body_result 200 path p (Received resp) \<and>
     map snd (made s (self_put E path payload p s)) =
       replicate k ConnectionFailed @ [Received resp]"
proof -
  from answers_afterD [OF assms(2)] obtain n1 n2 where
    "after_failures E (put_request (self s) path payload) k (net s) = Some n1"
    "transport E (put_request (self s) path payload) n1 = (Received resp, n2)"
    by blast
  from self_put_after_failures [OF assms(1) this] show ?thesis
    by (simp add: made_def)
qed

lemma op_result_success:
  "resp_status_code resp = expected \<Longrightarrow> resp_json resp = Some (JDict d) \<Longrightarrow>
     validate sch d = Some rec \<Longrightarrow> op_result sch expected path (Received resp) = Inr rec"
  by (simp add: op_result_def construct_def unpack_def)

lemma fst_case_result:
  "fst (case m of (Inl e, s') \<Rightarrow> (Inl e, s') | (Inr p, s') \<Rightarrow> (h p, s')) =
     (case fst m of Inl e \<Rightarrow> Inl e | Inr p \<Rightarrow> h p)"
  by (cases m; cases "fst m") auto

lemma get_image_info_answers:
  assumes "k \<le> max_retries E"
    and "answers_after E
       (get_request (self s) (''/slides/'' @ slide_id @ ''/info'') (image_info_params extended phi))
       k (net s) = Some resp"
  shows "fst (get_image_info E slide_id extended phi s) =
     op_result (ImageInfo_fields E) 200 (''/slides/'' @ slide_id @ ''/info'') (Received resp)"
proof -
  have "get_image_info E slide_id extended phi s =
     (case self_get E (''/slides/'' @ slide_id @ ''/info'') (image_info_params extended phi) s of
        (Inl e, s') \<Rightarrow> (Inl e, s')
      | (Inr payload, s') \<Rightarrow> (construct (ImageInfo_fields E) (Some payload), s'))"
    unfolding get_image_info_def image_info_params_def by (simp add: Let_def)
  then show ?thesis
    by (simp only: fst_case_result conjunct1 [OF self_get_answers [OF assms]] op_result_get)
qed

lemma create_results_answers:
  assumes "k \<le> max_retries E"
    and "answers_after E
       (post_request (self s) (''/applications/'' @ app_id (self s) @ ''/results'')
          (model_dump results))
       k (net s) = Some resp"
  shows "fst (create_results E results s) =
     op_result (ResultResponse_fields E) 201
       (''/applications/'' @ app_id (self s) @ ''/results'') (Received resp)"
  unfolding create_results_def Let_def
  by (simp only: fst_case_result conjunct1 [OF self_post_answers [OF assms]] op_result_body)

lemma get_results_answers:
  assumes "k \<le> max_retries E"
    and "answers_after E
       (get_request (self s) (''/application/'' @ app_id (self s) @ ''/results/'' @ ident) [])
       k (net s) = Some resp"
  shows "fst (get_results E ident s) =
     op_result (ResultResponse_fields E) 200
       (''/application/'' @ app_id (self s) @ ''/results/'' @ ident) (Received resp)"
  unfolding get_results_def Let_def
  by (simp only: fst_case_result conjunct1 [OF self_get_answers [OF assms]] op_result_get)

lemma update_results_answers:
  assumes "k \<le> max_retries E"
    and "answers_after E
       (put_request (self s) (''/application/'' @ app_id (self s) @ ''/results/'' @ ident)
          (model_dump results))
       k (net s) = Some resp"
  shows "fst (update_results E ident results s) =
     op_result (ResultResponse_fields E) 200
       (''/application/'' @ app_id (self s) @ ''/results/'' @ ident) (Received resp)"
  unfolding update_results_def Let_def
  by (simp only: fst_case_result conjunct1 [OF self_put_answers [OF assms]] op_result_body)

text \<open>
  C6. Each of the HTTP-issuing steps \<^verbatim>\<open>_get\<close>, \<^verbatim>\<open>_post\<close> and \<^verbatim>\<open>_put\<close> is attempted at
  least once and at most \<open>max_retries + 1\<close> times; an attempt is repeated only after a
  connection-level failure, so a received response, whatever its status, ends the step;
  and the step gives up on a connection failure only when the bound is used up. If the
  remote side refuses the connection \<open>k\<close> times, with \<open>k\<close> within the bound, and then
  answers, the step has made exactly \<open>k + 1\<close> attempts; it returns the parsed body when
  the answer has the expected status, and raises the request error, with no further
  attempt, when it has another one. In the first case each public operation whose
  response validates returns its record: no error reaches the caller.
\<close>

theorem retry_on_connection_failure_only:
  "retried_on_connection_failure_only (max_retries E) (made s (self_get E path kwargs s)) \<and>
   retried_on_connection_failure_only (max_retries E) (made s (self_post E path payload p s)) \<and>
   retried_on_connection_failure_only (max_retries E) (made s (self_put E path payload p s)) \<and>
   (\<forall>k resp. k \<le> max_retries E \<and>
      answers_after E (get_request (self s) path kwargs) k (net s) = Some resp \<longrightarrow>
      map snd (made s (self_get E path kwargs s)) = replicate k ConnectionFailed @ [Received resp] \<and>
      (\<forall>j. resp_status_code resp = 200 \<and> resp_json resp = Some j \<longrightarrow>
         fst (self_get E path kwargs s) = Inr j) \<and>
      (resp_status_code resp \<noteq> 200 \<longrightarrow>
         fst (self_get E path kwargs s) =
           Inl (IDS7RequestError (resp_status_code resp) (resp_text resp) path))) \<and>
   (\<forall>k resp. k \<le> max_retries E \<and>
      answers_after E (post_request (self s) path payload) k (net s) = Some resp \<longrightarrow>
      map snd (made s (self_post E path payload p s)) =
        replicate k ConnectionFailed @ [Received resp] \<and>
      (\<forall>j. resp_status_code resp = 201 \<and> resp_json resp = Some j \<longrightarrow>
         fst (self_post E path payload p s) = Inr (if p then Some j else None)) \<and>
      (resp_status_code resp \<noteq> 201 \<longrightarrow>
         fst (self_post E path payload p s) =
           Inl (IDS7RequestError (resp_status_code resp) (resp_text resp) path))) \<and>
   (\<forall>k resp. k \<le> max_retries E \<and>
      answers_after E (put_request (self s) path payload) k (net s) = Some resp \<longrightarrow>
      map snd (made s (self_put E path payload p s)) =
        replicate k ConnectionFailed @ [Received resp] \<and>
      (\<forall>j. resp_status_code resp = 200 \<and> resp_json resp = Some j \<longrightarrow>
         fst (self_put E path payload p s) = Inr (if p then Some j else None)) \<and>
      (resp_status_code resp \<noteq> 200 \<longrightarrow>
         fst (self_put E path payload p s) =
           Inl (IDS7RequestError (resp_status_code resp) (resp_text resp) path))) \<and>
   (\<forall>k resp d rec. k \<le> max_retries E \<and>
      answers_after E
        (get_request (self s) (''/slides/'' @ slide_id @ ''/info'') (image_info_params extended phi))
        k (net s) = Some resp \<and>
      resp_status_code resp = 200 \<and> resp_json resp = Some (JDict d) \<and>
      validate (ImageInfo_fields E) d = Some rec \<longrightarrow>
      fst (get_image_info E slide_id extended phi s) = Inr rec) \<and>
   (\<forall>k resp d rec. k \<le> max_retries E \<and>
      answers_after E
        (post_request (self s) (''/applications/'' @ app_id (self s) @ ''/results'')
           (model_dump results))
        k (net s) = Some resp \<and>
      resp_status_code resp = 201 \<and> resp_json resp = Some (JDict d) \<and>
      validate (ResultResponse_fields E) d = Some rec \<longrightarrow>
      fst (create_results E results s) = Inr rec) \<and>
   (\<forall>k resp d rec. k \<le> max_retries E \<and>
      answers_after E
        (get_request (self s) (''/application/'' @ app_id (self s) @ ''/results/'' @ ident) [])
        k (net s) = Some resp \<and>
      resp_status_code resp = 200 \<and> resp_json resp = Some (JDict d) \<and>
      validate (ResultResponse_fields E) d = Some rec \<longrightarrow>
      fst (get_results E ident s) = Inr rec) \<and>
   (\<forall>k resp d rec. k \<le> max_retries E \<and>
      answers_after E
        (put_request (self s) (''/application/'' @ app_id (self s) @ ''/results/'' @ ident)
           (model_dump results))
        k (net s) = Some resp \<and>
      resp_status_code resp = 200 \<and> resp_json resp = Some (JDict d) \<and>
      validate (ResultResponse_fields E) d = Some rec \<longrightarrow>
      fst (update_results E ident results s) = Inr rec)"
proof (intro conjI allI impI; (elim conjE)?)
  show "retried_on_connection_failure_only (max_retries E) (made s (self_get E path kwargs s))"
    by (rule performs_retried [OF self_get_performs])
  show "retried_on_connection_failure_only (max_retries E) (made s (self_post E path payload p s))"
    by (rule performs_retried [OF self_post_performs])
  show "retried_on_connection_failure_only (max_retries E) (made s (self_put E path payload p s))"
    by (rule performs_retried [OF self_put_performs])
next
  fix k resp
  assume a: "k \<le> max_retries E"
    "answers_after E (get_request (self s) path kwargs) k (net s) = Some resp"
  note r = self_get_answers [OF a]
  show "map snd (made s (self_get E path kwargs s)) = replicate k ConnectionFailed @ [Received resp]"
    using r by simp
  show "fst (self_get E path kwargs s) = Inr j"
    if "resp_status_code resp = 200" "resp_json resp = Some j" for j
    using r that by (simp add: get_result_def)
  show "fst (self_get E path kwargs s) =
      Inl (IDS7RequestError (resp_status_code resp) (resp_text resp) path)"
    if "resp_status_code resp \<noteq> 200"
    using r that by (simp add: get_result_def)
next
  fix k resp
  assume a: "k \<le> max_retries E"
    "answers_after E (post_request (self s) path payload) k (net s) = Some resp"
  note r = self_post_answers [OF a, of p]
  show "map snd (made s (self_post E path payload p s)) =
      replicate k ConnectionFailed @ [Received resp]"
    using r by simp
  show "fst (self_post E path payload p s) = Inr (if p then Some j else None)"
    if "resp_status_code resp = 201" "resp_json resp = Some j" for j
    using r that by (simp add: body_result_def)
  show "fst (self_post E path payload p s) =
      Inl (IDS7RequestError (resp_status_code resp) (resp_text resp) path)"
    if "resp_status_code resp \<noteq> 201"
    using r that by (simp add: body_result_def)
next
  fix k resp
  assume a: "k \<le> max_retries E"
    "answers_after E (put_request (self s) path payload) k (net s) = Some resp"
  note r = self_put_answers [OF a, of p]
  show "map snd (made s (self_put E path payload p s)) =
      replicate k ConnectionFailed @ [Received resp]"
    using r by simp
  show "fst (self_put E path payload p s) = Inr (if p then Some j else None)"
    if "resp_status_code resp = 200" "resp_json resp = Some j" for j
    using r that by (simp add: body_result_def)
  show "fst (self_put E path payload p s) =
      Inl (IDS7RequestError (resp_status_code resp) (resp_text resp) path)"
    if "resp_status_code resp \<noteq> 200"
    using r that by (simp add: body_result_def)
next
  fix k resp d rec
  assume "k \<le> max_retries E"
    "answers_after E
      (get_request (self s) (''/slides/'' @ slide_id @ ''/info'') (image_info_params extended phi))
      k (net s) = Some resp"
    and v: "resp_status_code resp = 200" "resp_json resp = Some (JDict d)"
      "validate (ImageInfo_fields E) d = Some rec"
  from get_image_info_answers [OF this(1,2)] op_result_success [OF v]
  show "fst (get_image_info E slide_id extended phi s) = Inr rec" by simp
next
  fix k resp d rec
  assume "k \<le> max_retries E"
    "answers_after E
      (post_request (self s) (''/applications/'' @ app_id (self s) @ ''/results'')
         (model_dump results))
      k (net s) = Some resp"
    and v: "resp_status_code resp = 201" "resp_json resp = Some (JDict d)"
      "validate (ResultResponse_fields E) d = Some rec"
  from create_results_answers [OF this(1,2)] op_result_success [OF v]
  show "fst (create_results E results s) = Inr rec" by simp
next
  fix k resp d rec
  assume "k \<le> max_retries E"
    "answers_after E
      (get_request (self s) (''/application/'' @ app_id (self s) @ ''/results/'' @ ident) [])
      k (net s) = Some resp"
    and v: "resp_status_code resp = 200" "resp_json resp = Some (JDict d)"
      "validate (ResultResponse_fields E) d = Some rec"
  from get_results_answers [OF this(1,2)] op_result_success [OF v]
  show "fst (get_results E ident s) = Inr rec" by simp
next
  fix k resp d rec
  assume "k \<le> max_retries E"
    "answers_after E
      (put_request (self s) (''/application/'' @ app_id (self s) @ ''/results/'' @ ident)
         (model_dump results))
      k (net s) = Some resp"
    and v: "resp_status_code resp = 200" "resp_json resp = Some (JDict d)"
      "validate (ResultResponse_fields E) d = Some rec"
  from update_results_answers [OF this(1,2)] op_result_success [OF v]
  show "fst (update_results E ident results s) = Inr rec" by simp
qed

theorem retry_on_connection_failure_only_witness:
  "answers_after demo_env
     (post_request demo_client ''/applications/app/results'' (JDict [(''score'', JInt 1)])) 1
     [ConnectionFailed,
      Received \<lparr>resp_status_code = 201, resp_text = ''ok'',
        resp_json = Some (JDict [(''id'', JStr ''abc123''), (''score'', JInt 1)])\<rparr>] =
     Some \<lparr>resp_status_code = 201, resp_text = ''ok'',
        resp_json = Some (JDict [(''id'', JStr ''abc123''), (''score'', JInt 1)])\<rparr> \<and>
   fst (create_results demo_env [(''score'', JInt 1)]
      (demo_state [ConnectionFailed,
         Received \<lparr>resp_status_code = 201, resp_text = ''ok'',
           resp_json = Some (JDict [(''id'', JStr ''abc123''), (''score'', JInt 1)])\<rparr>])) =
     Inr [(''id'', JStr ''abc123'')] \<and>
   map snd (made (demo_state [ConnectionFailed, ConnectionFailed, ConnectionFailed, Received info_ok])
      (self_get demo_env ''/info'' []
         (demo_state [ConnectionFailed, ConnectionFailed, ConnectionFailed, Received info_ok]))) =
     [ConnectionFailed, ConnectionFailed, ConnectionFailed] \<and>
   fst (self_get demo_env ''/info'' []
      (demo_state [ConnectionFailed, ConnectionFailed, ConnectionFailed, Received info_ok])) =
     Inl ConnectionError \<and>
   self_get demo_env ''/x'' []
      (demo_state [Received \<lparr>resp_status_code = 503, resp_text = ''busy'', resp_json = None\<rparr>,
         Received info_ok]) =
     (Inl (IDS7RequestError 503 ''busy'' ''/x''),
      \<lparr>self = demo_client, net = [Received info_ok],
       exchanges = [(get_request demo_client ''/x'' [],
         Received \<lparr>resp_status_code = 503, resp_text = ''busy'', resp_json = None\<rparr>)]\<rparr>)"
proof -
  let ?resp = "\<lparr>resp_status_code = 201, resp_text = ''ok'',
        resp_json = Some (JDict [(''id'', JStr ''abc123''), (''score'', JInt 1)])\<rparr>"
  let ?s = "demo_state [ConnectionFailed, Received ?resp]"
  have a: "answers_after demo_env
     (post_request (self ?s) (''/applications/'' @ app_id (self ?s) @ ''/results'')
        (model_dump [(''score'', JInt 1)])) 1 (net ?s) = Some ?resp"
    by (simp add: answers_after_def demo_defs model_dump_def)
  have b: "1 \<le> max_retries demo_env" by (simp add: demo_defs)
  have v: "validate (ResultResponse_fields demo_env) [(''id'', JStr ''abc123''), (''score'', JInt 1)] =
      Some [(''id'', JStr ''abc123'')]"
    by (simp add: demo_defs)
  from retry_on_connection_failure_only
    [where E = demo_env and s = ?s and results = "[(''score'', JInt 1)]"]
  have "\<forall>k resp d rec. k \<le> max_retries demo_env \<and>
      answers_after demo_env
        (post_request (self ?s) (''/applications/'' @ app_id (self ?s) @ ''/results'')
           (model_dump [(''score'', JInt 1)]))
        k (net ?s) = Some resp \<and>
      resp_status_code resp = 201 \<and> resp_json resp = Some (JDict d) \<and>
      validate (ResultResponse_fields demo_env) d = Some rec \<longrightarrow>
      fst (create_results demo_env [(''score'', JInt 1)] ?s) = Inr rec"
    by blast
  with a b v have c: "fst (create_results demo_env [(''score'', JInt 1)] ?s) =
      Inr [(''id'', JStr ''abc123'')]"
    by (elim allE [where x = 1] allE [where x = ?resp]
        allE [where x = "[(''id'', JStr ''abc123''), (''score'', JInt 1)]"]
        allE [where x = "[(''id'', JStr ''abc123'')]"]) simp
  have a': "answers_after demo_env
     (post_request demo_client ''/applications/app/results'' (JDict [(''score'', JInt 1)])) 1
     [ConnectionFailed, Received ?resp] = Some ?resp"
    using a by (simp add: demo_defs model_dump_def)
  have e: "map snd (made (demo_state [ConnectionFailed, ConnectionFailed, ConnectionFailed, Received info_ok])
      (self_get demo_env ''/info'' []
         (demo_state [ConnectionFailed, ConnectionFailed, ConnectionFailed, Received info_ok]))) =
     [ConnectionFailed, ConnectionFailed, ConnectionFailed] \<and>
   fst (self_get demo_env ''/info'' []
      (demo_state [ConnectionFailed, ConnectionFailed, ConnectionFailed, Received info_ok])) =
     Inl ConnectionError"
    by (simp add: client_defs demo_defs)
  have f: "self_get demo_env ''/x'' []
      (demo_state [Received \<lparr>resp_status_code = 503, resp_text = ''busy'', resp_json = None\<rparr>,
         Received info_ok]) =
     (Inl (IDS7RequestError 503 ''busy'' ''/x''),
      \<lparr>self = demo_client, net = [Received info_ok],
       exchanges = [(get_request demo_client ''/x'' [],
         Received \<lparr>resp_status_code = 503, resp_text = ''busy'', resp_json = None\<rparr>)]\<rparr>)"
    by (simp add: client_defs demo_defs)
  from a' c e f show ?thesis by simp
qed


text \<open>
  C7. If the GET \<^verbatim>\<open>/info\<close> request issued during construction fails, construction fails
  with the error of the failed request and the caller receives no client: after
  \<open>max_retries\<close> retries that all failed at connection level the result is the connection
  error; on a status other than 200 it is the request error with that status, the text of
  the response and the path \<^verbatim>\<open>/info\<close>; on a body that does not parse it is the decode
  error; on a JSON object that lacks \<^verbatim>\<open>apiVersion\<close> or \<^verbatim>\<open>softwareVersion\<close>, or has one
  that is not a string, it is the validation error; on JSON that is not an object it is
  the type error. Whatever error \<^verbatim>\<open>_get\<close> makes of the last exchange is the error of
  the construction. A client is returned in the one remaining case only.
\<close>

theorem construction_failure:
  assumes "new_IDS7AIClient E u t a n xs = (r, n', xs')"
  shows "\<exists>ys out.
     xs' = xs @ ys @ [(get_request (fresh_client u t a) ''/info'' [], out)] \<and>
     length ys \<le> max_retries E \<and>
     (\<forall>x \<in> set ys. snd x = ConnectionFailed) \<and>
     (\<forall>e. get_result ''/info'' out = Inl e \<longrightarrow> r = Inl e) \<and>
     (case out of
        ConnectionFailed \<Rightarrow> length ys = max_retries E \<and> r = Inl ConnectionError
      | Received resp \<Rightarrow>
          if resp_status_code resp \<noteq> 200
          then r = Inl (IDS7RequestError (resp_status_code resp) (resp_text resp) ''/info'')
          else (case resp_json resp of
                  None \<Rightarrow> r = Inl JSONDecodeError
                | Some (JDict d) \<Rightarrow>
                    if missing_or_wrong_type ApplicationInfo_fields d
                    then r = Inl ValidationError
                    else (\<exists>c. r = Inr c)
                | Some _ \<Rightarrow> r = Inl TypeError))"
proof -
  let ?rq = "get_request (fresh_client u t a) ''/info'' []"
  let ?f = "\<lambda>v. \<lparr>url = u, token = t, app_id = a,
                        headers = [(''Authorization'', ''Bearer '' @ t),
                                   (''X-Sectra-ApiVersion'', apiVersion v),
                                   (''X-Sectra-SoftwareVersion'', softwareVersion v)],
                        ids7_version = Some v\<rparr>"
  from new_IDS7AIClient_shape [OF assms] obtain k out where
    k: "k \<le> max_retries E" "out = ConnectionFailed \<longrightarrow> k = max_retries E"
    and xs': "xs' = xs @ replicate k (?rq, ConnectionFailed) @ [(?rq, out)]"
    and r: "r = (case get_result ''/info'' out of
            Inl e \<Rightarrow> Inl e
          | Inr j \<Rightarrow>
              (case new_ApplicationInfo (Some j) of Inl e \<Rightarrow> Inl e | Inr v \<Rightarrow> Inr (?f v)))"
    by blast
  have e: "\<forall>e. get_result ''/info'' out = Inl e \<longrightarrow> r = Inl e"
    using r by simp
  have c: "case out of
        ConnectionFailed \<Rightarrow> length (replicate k (?rq, ConnectionFailed)) = max_retries E \<and>
          r = Inl ConnectionError
      | Received resp \<Rightarrow>
          if resp_status_code resp \<noteq> 200
          then r = Inl (IDS7RequestError (resp_status_code resp) (resp_text resp) ''/info'')
          else (case resp_json resp of
                  None \<Rightarrow> r = Inl JSONDecodeError
                | Some (JDict d) \<Rightarrow>
                    if missing_or_wrong_type ApplicationInfo_fields d
                    then r = Inl ValidationError
                    else (\<exists>c. r = Inr c)
                | Some _ \<Rightarrow> r = Inl TypeError)"
  proof (cases out)
    case ConnectionFailed
    then show ?thesis using k r by simp
  next
    case (Received resp)
    show ?thesis
    proof (cases "resp_status_code resp = 200")
      case False
      then show ?thesis using r Received by (simp add: get_result_def)
    next
      case True
      show ?thesis
      proof (cases "resp_json resp")
        case None
        then show ?thesis using r Received True by (simp add: get_result_def)
      next
        case (Some j)
        then have rj: "r = (case new_ApplicationInfo (Some j) of
            Inl e \<Rightarrow> Inl e | Inr v \<Rightarrow> Inr (?f v))"
          using r Received True by (simp add: get_result_def)
        show ?thesis
        proof (cases "\<exists>d. j = JDict d")
          case True
          then obtain d where d: "j = JDict d" by blast
          show ?thesis
          proof (cases "missing_or_wrong_type ApplicationInfo_fields d")
            case True
            then have "new_ApplicationInfo (Some (JDict d)) = Inl ValidationError"
              by (simp add: new_ApplicationInfo_invalid validate_None)
            then show ?thesis
              using rj d Received Some True \<open>resp_status_code resp = 200\<close> by simp
          next
            case False
            then have "validate ApplicationInfo_fields d \<noteq> None"
              by (simp add: validate_None)
            from new_ApplicationInfo_valid [OF this] obtain v
              where "new_ApplicationInfo (Some (JDict d)) = Inr v" by blast
            then show ?thesis
              using rj d Received Some False \<open>resp_status_code resp = 200\<close> by simp
          qed
        next
          case False
          then have "new_ApplicationInfo (Some j) = Inl TypeError"
            by (intro new_ApplicationInfo_not_dict) blast
          then show ?thesis
            using rj False Received Some \<open>resp_status_code resp = 200\<close>
            by (cases j) simp_all
        qed
      qed
    qed
  qed
  show ?thesis
    by (rule exI [of _ "replicate k (?rq, ConnectionFailed)"], rule exI [of _ out])
      (use xs' k e c in simp)
qed

theorem construction_failure_witness:
  "new_IDS7AIClient demo_env ''https://ids7'' ''tok'' ''app''
      [ConnectionFailed, ConnectionFailed, ConnectionFailed, Received info_ok] [] =
     (Inl ConnectionError, [Received info_ok],
      [(get_request (fresh_client ''https://ids7'' ''tok'' ''app'') ''/info'' [], ConnectionFailed),
       (get_request (fresh_client ''https://ids7'' ''tok'' ''app'') ''/info'' [], ConnectionFailed),
       (get_request (fresh_client ''https://ids7'' ''tok'' ''app'') ''/info'' [], ConnectionFailed)]) \<and>
   fst (new_IDS7AIClient demo_env ''https://ids7'' ''tok'' ''app''
      [Received \<lparr>resp_status_code = 503, resp_text = ''busy'', resp_json = None\<rparr>] []) =
     Inl (IDS7RequestError 503 ''busy'' ''/info'') \<and>
   fst (new_IDS7AIClient demo_env ''https://ids7'' ''tok'' ''app''
      [Received \<lparr>resp_status_code = 200, resp_text = ''ok'',
         resp_json = Some (JDict [(''apiVersion'', JStr ''1.0''), (''softwareVersion'', JInt 7)])\<rparr>] []) =
     Inl ValidationError \<and>
   fst (new_IDS7AIClient demo_env ''https://ids7'' ''tok'' ''app''
      [Received \<lparr>resp_status_code = 200, resp_text = ''[]'', resp_json = Some (JList [])\<rparr>] []) =
     Inl TypeError"
proof -
  have h: "new_IDS7AIClient demo_env ''https://ids7'' ''tok'' ''app''
      [ConnectionFailed, ConnectionFailed, ConnectionFailed, Received info_ok] [] =
     (Inl ConnectionError, [Received info_ok],
      [(get_request (fresh_client ''https://ids7'' ''tok'' ''app'') ''/info'' [], ConnectionFailed),
       (get_request (fresh_client ''https://ids7'' ''tok'' ''app'') ''/info'' [], ConnectionFailed),
       (get_request (fresh_client ''https://ids7'' ''tok'' ''app'') ''/info'' [], ConnectionFailed)])"
    by (simp add: client_defs demo_defs)
  from construction_failure [OF h] h show ?thesis
    by (simp add: client_defs demo_defs)
qed


text \<open>
  C8. For every public operation (\<^verbatim>\<open>get_image_info\<close>, \<^verbatim>\<open>create_results\<close>,
  \<^verbatim>\<open>get_results\<close>, \<^verbatim>\<open>update_results\<close>) and every outcome, success or error, the state
  of the client (base URL, token, application id, cached header set and stored
  \<^verbatim>\<open>ids7_version\<close>, that is every slot of the object) is the same after the call as before
  it; so it is after any sequence of calls. Only construction writes the slots.
\<close>

theorem client_state_unchanged:
  "self (snd (get_image_info E slide_id extended phi s)) = self s \<and>
   self (snd (create_results E results s)) = self s \<and>
   self (snd (get_results E ident s)) = self s \<and>
   self (snd (update_results E ident results s)) = self s \<and>
   self (run_all E calls s) = self s"
proof -
  have "self (snd (get_image_info E slide_id extended phi s)) = self s"
    by (rule performs_self [OF get_image_info_performs])
  moreover have "self (snd (create_results E results s)) = self s"
    by (rule performs_self [OF create_results_performs])
  moreover have "self (snd (get_results E ident s)) = self s"
    by (rule performs_self [OF get_results_performs])
  moreover have "self (snd (update_results E ident results s)) = self s"
    by (rule performs_self [OF update_results_performs])
  moreover have "self (run_all E calls s) = self s"
    using run_all_headers [of E calls s] by simp
  ultimately show ?thesis by simp
qed


text \<open>
  C9. The identifiers the caller supplies (\<^verbatim>\<open>slide_id\<close>, the result id, and the application
  id fixed at construction) go into the request paths verbatim, whatever string they are,
  and nothing is checked, escaped or validated before or after: for every identifier each
  operation issues at least one request, every request it issues goes to the path with
  the identifiers as given, and its result is what the outcome of its last exchange makes
  it, with the same path in the request error. Construction sends its request whatever
  the application id is and stores the id as given. In particular, for the empty
  \<^verbatim>\<open>slide_id\<close>, \<^verbatim>\<open>get_image_info\<close> does not fail by itself: it issues GET to
  \<^verbatim>\<open>/slides//info\<close>.
\<close>

theorem identifiers_verbatim:
  "made s (get_image_info E slide_id extended phi s) \<noteq> [] \<and>
   (\<forall>x \<in> set (made s (get_image_info E slide_id extended phi s)).
      req_method (fst x) = GET \<and>
      req_url (fst x) = url (self s) @ ''/slides/'' @ slide_id @ ''/info'') \<and>
   fst (get_image_info E slide_id extended phi s) =
     op_result (ImageInfo_fields E) 200 (''/slides/'' @ slide_id @ ''/info'')
       (snd (last (made s (get_image_info E slide_id extended phi s)))) \<and>
   made s (get_results E ident s) \<noteq> [] \<and>
   (\<forall>x \<in> set (made s (get_results E ident s)).
      req_method (fst x) = GET \<and>
      req_url (fst x) = url (self s) @ ''/application/'' @ app_id (self s) @ ''/results/'' @ ident) \<and>
   fst (get_results E ident s) =
     op_result (ResultResponse_fields E) 200
       (''/application/'' @ app_id (self s) @ ''/results/'' @ ident)
       (snd (last (made s (get_results E ident s)))) \<and>
   made s (update_results E ident results s) \<noteq> [] \<and>
   (\<forall>x \<in> set (made s (update_results E ident results s)).
      req_method (fst x) = PUT \<and>
      req_url (fst x) = url (self s) @ ''/application/'' @ app_id (self s) @ ''/results/'' @ ident) \<and>
   fst (update_results E ident results s) =
     op_result (ResultResponse_fields E) 200
       (''/application/'' @ app_id (self s) @ ''/results/'' @ ident)
       (snd (last (made s (update_results E ident results s)))) \<and>
   made s (create_results E results s) \<noteq> [] \<and>
   (\<forall>x \<in> set (made s (create_results E results s)).
      req_method (fst x) = POST \<and>
      req_url (fst x) = url (self s) @ ''/applications/'' @ app_id (self s) @ ''/results'') \<and>
   fst (create_results E results s) =
     op_result (ResultResponse_fields E) 201
       (''/applications/'' @ app_id (self s) @ ''/results'')
       (snd (last (made s (create_results E results s)))) \<and>
   drop (length xs) (snd (snd (new_IDS7AIClient E u t a n xs))) \<noteq> [] \<and>
   fst (new_IDS7AIClient E u t a n xs) =
     (case get_result ''/info''
         (snd (last (drop (length xs) (snd (snd (new_IDS7AIClient E u t a n xs)))))) of
        Inl e \<Rightarrow> Inl e
      | Inr j \<Rightarrow>
          (case new_ApplicationInfo (Some j) of
             Inl e \<Rightarrow> Inl e
           | Inr v \<Rightarrow>
               Inr \<lparr>url = u, token = t, app_id = a,
                    headers = [(''Authorization'', ''Bearer '' @ t),
                               (''X-Sectra-ApiVersion'', apiVersion v),
                               (''X-Sectra-SoftwareVersion'', softwareVersion v)],
                    ids7_version = Some v\<rparr>)) \<and>
   made s (get_image_info E [] extended phi s) \<noteq> [] \<and>
   (\<forall>x \<in> set (made s (get_image_info E [] extended phi s)).
      req_method (fst x) = GET \<and> req_url (fst x) = url (self s) @ ''/slides//info'') \<and>
   fst (get_image_info E [] extended phi s) =
     op_result (ImageInfo_fields E) 200 ''/slides//info''
       (snd (last (made s (get_image_info E [] extended phi s))))"
proof -
  note pi = get_image_info_performs [of E s slide_id extended phi]
  from performs_requests [OF pi] performs_last [OF pi]
  have i: "made s (get_image_info E slide_id extended phi s) \<noteq> []"
    "\<forall>x \<in> set (made s (get_image_info E slide_id extended phi s)).
       fst x = get_request (self s) (''/slides/'' @ slide_id @ ''/info'')
         (image_info_params extended phi)"
    "fst (get_image_info E slide_id extended phi s) =
     op_result (ImageInfo_fields E) 200 (''/slides/'' @ slide_id @ ''/info'')
       (snd (last (made s (get_image_info E slide_id extended phi s))))"
    by auto
  note pg = get_results_performs [of E s ident]
  from performs_requests [OF pg] performs_last [OF pg]
  have g: "made s (get_results E ident s) \<noteq> []"
    "\<forall>x \<in> set (made s (get_results E ident s)).
       fst x = get_request (self s) (''/application/'' @ app_id (self s) @ ''/results/'' @ ident) []"
    "fst (get_results E ident s) =
     op_result (ResultResponse_fields E) 200
       (''/application/'' @ app_id (self s) @ ''/results/'' @ ident)
       (snd (last (made s (get_results E ident s))))"
    by auto
  note pu = update_results_performs [of E s ident results]
  from performs_requests [OF pu] performs_last [OF pu]
  have u: "made s (update_results E ident results s) \<noteq> []"
    "\<forall>x \<in> set (made s (update_results E ident results s)).
       fst x = put_request (self s) (''/application/'' @ app_id (self s) @ ''/results/'' @ ident)
         (model_dump results)"
    "fst (update_results E ident results s) =
     op_result (ResultResponse_fields E) 200
       (''/application/'' @ app_id (self s) @ ''/results/'' @ ident)
       (snd (last (made s (update_results E ident results s))))"
    by auto
  note pc = create_results_performs [of E s results]
  from performs_requests [OF pc] performs_last [OF pc]
  have c: "made s (create_results E results s) \<noteq> []"
    "\<forall>x \<in> set (made s (create_results E results s)).
       fst x = post_request (self s) (''/applications/'' @ app_id (self s) @ ''/results'')
         (model_dump results)"
    "fst (create_results E results s) =
     op_result (ResultResponse_fields E) 201
       (''/applications/'' @ app_id (self s) @ ''/results'')
       (snd (last (made s (create_results E results s))))"
    by auto
  have p: "performs E (get_request (self s) ''/slides//info'' (image_info_params extended phi))
     (op_result (ImageInfo_fields E) 200 ''/slides//info'') s
     (get_image_info E [] extended phi s)"
    using get_image_info_performs [of E s "[]" extended phi] by simp
  from performs_requests [OF p] performs_last [OF p]
  have e: "made s (get_image_info E [] extended phi s) \<noteq> []"
    "\<forall>x \<in> set (made s (get_image_info E [] extended phi s)).
       fst x = get_request (self s) ''/slides//info'' (image_info_params extended phi)"
    "fst (get_image_info E [] extended phi s) =
     op_result (ImageInfo_fields E) 200 ''/slides//info''
       (snd (last (made s (get_image_info E [] extended phi s))))"
    by auto
  obtain r n' xs' where res: "new_IDS7AIClient E u t a n xs = (r, n', xs')"
    by (cases "new_IDS7AIClient E u t a n xs")
  from new_IDS7AIClient_shape [OF res] obtain k out where
    xs': "xs' = xs @ replicate k (get_request (fresh_client u t a) ''/info'' [], ConnectionFailed) @
             [(get_request (fresh_client u t a) ''/info'' [], out)]"
    and r: "r = (case get_result ''/info'' out of
            Inl e \<Rightarrow> Inl e
          | Inr j \<Rightarrow>
              (case new_ApplicationInfo (Some j) of
                 Inl e \<Rightarrow> Inl e
               | Inr v \<Rightarrow>
                   Inr \<lparr>url = u, token = t, app_id = a,
                        headers = [(''Authorization'', ''Bearer '' @ t),
                                   (''X-Sectra-ApiVersion'', apiVersion v),
                                   (''X-Sectra-SoftwareVersion'', softwareVersion v)],
                        ids7_version = Some v\<rparr>))"
    by blast
  have d: "drop (length xs) (snd (snd (new_IDS7AIClient E u t a n xs))) =
      replicate k (get_request (fresh_client u t a) ''/info'' [], ConnectionFailed) @
        [(get_request (fresh_client u t a) ''/info'' [], out)]"
    using xs' res by simp
  have n: "drop (length xs) (snd (snd (new_IDS7AIClient E u t a n xs))) \<noteq> []"
    "fst (new_IDS7AIClient E u t a n xs) =
     (case get_result ''/info''
         (snd (last (drop (length xs) (snd (snd (new_IDS7AIClient E u t a n xs)))))) of
        Inl e \<Rightarrow> Inl e
      | Inr j \<Rightarrow>
          (case new_ApplicationInfo (Some j) of
             Inl e \<Rightarrow> Inl e
           | Inr v \<Rightarrow>
               Inr \<lparr>url = u, token = t, app_id = a,
                    headers = [(''Authorization'', ''Bearer '' @ t),
                               (''X-Sectra-ApiVersion'', apiVersion v),
                               (''X-Sectra-SoftwareVersion'', softwareVersion v)],
                    ids7_version = Some v\<rparr>))"
    unfolding d using r res by simp_all
  have rq: "req_method (get_request c p k) = GET" "req_url (get_request c p k) = url c @ p"
    "req_method (put_request c p j) = PUT" "req_url (put_request c p j) = url c @ p"
    "req_method (post_request c p j) = POST" "req_url (post_request c p j) = url c @ p"
    for c p k j
    by (simp_all add: get_request_def put_request_def post_request_def)
  show ?thesis
    apply (intro conjI)
    using i g u c e n by (simp_all add: rq)
qed

theorem identifiers_verbatim_witness:
  "map (\<lambda>x. (req_method (fst x), req_url (fst x)))
     (made (demo_state [Received info_ok])
        (get_image_info demo_env [] False False (demo_state [Received info_ok]))) =
     [(GET, ''https://ids7/slides//info'')] \<and>
   fst (get_image_info demo_env [] False False
      (demo_state [Received \<lparr>resp_status_code = 200, resp_text = ''ok'',
         resp_json = Some (JDict [(''id'', JStr ''x'')])\<rparr>])) = Inr [(''id'', JStr ''x'')] \<and>
   map (\<lambda>x. req_url (fst x))
     (made (demo_state [Received info_ok])
        (get_results demo_env ''a b/../c?d=1'' (demo_state [Received info_ok]))) =
     [''https://ids7/application/app/results/a b/../c?d=1''] \<and>
   map (\<lambda>x. (req_method (fst x), req_url (fst x)))
     (made (demo_state [Received info_ok])
        (update_results demo_env [] [] (demo_state [Received info_ok]))) =
     [(PUT, ''https://ids7/application/app/results/'')] \<and>
   fst (update_results demo_env [] []
      (demo_state [Received \<lparr>resp_status_code = 200, resp_text = ''ok'',
         resp_json = Some (JDict [(''id'', JStr ''x'')])\<rparr>])) = Inr [(''id'', JStr ''x'')] \<and>
   map (\<lambda>x. (req_method (fst x), req_url (fst x)))
     (made \<lparr>self = demo_client\<lparr>app_id := []\<rparr>, net = [Received info_ok], exchanges = []\<rparr>
        (create_results demo_env []
           \<lparr>self = demo_client\<lparr>app_id := []\<rparr>, net = [Received info_ok], exchanges = []\<rparr>)) =
     [(POST, ''https://ids7/applications//results'')] \<and>
   map_sum id app_id
     (fst (new_IDS7AIClient demo_env ''https://ids7'' ''tok'' ''a/b c'' [Received info_ok] [])) =
     Inr ''a/b c''"
  using identifiers_verbatim [of "demo_state [Received info_ok]" demo_env "[]" False False
      "''a b/../c?d=1''" "[]" "[]" "''https://ids7''" "''tok''" "''a/b c''" "[Received info_ok]"]
  by (simp add: client_defs demo_defs op_result_def get_result_def)

lemma attempt_made: "made s (attempt E rq g s) = [(rq, fst (transport E rq (net s)))]"
  by (simp add: attempt_eq made_def)

text \<open>
  C10. For every request, of GET, POST and PUT alike, the URL handed to the transport is
  the plain concatenation of the base URL given at construction and the path, with no
  normalisation: each attempt of \<^verbatim>\<open>_get\<close>, \<^verbatim>\<open>_post\<close> and \<^verbatim>\<open>_put\<close> sends exactly one
  request, to that URL, and so does every request of the decorated methods. A base URL
  that ends in a slash therefore gives a URL with two slashes before the path segment.
\<close>

theorem url_plain_concatenation:
  "map (\<lambda>x. req_url (fst x)) (made s (get_body E path kwargs s)) = [url (self s) @ path] \<and>
   map (\<lambda>x. req_url (fst x)) (made s (post_body E path payload p s)) = [url (self s) @ path] \<and>
   map (\<lambda>x. req_url (fst x)) (made s (put_body E path payload p s)) = [url (self s) @ path] \<and>
   made s (self_get E path kwargs s) \<noteq> [] \<and>
   (\<forall>x \<in> set (made s (self_get E path kwargs s)). req_url (fst x) = url (self s) @ path) \<and>
   made s (self_post E path payload p s) \<noteq> [] \<and>
   (\<forall>x \<in> set (made s (self_post E path payload p s)). req_url (fst x) = url (self s) @ path) \<and>
   made s (self_put E path payload p s) \<noteq> [] \<and>
   (\<forall>x \<in> set (made s (self_put E path payload p s)). req_url (fst x) = url (self s) @ path) \<and>
   (url (self s) = base @ ''/'' \<and> path = ''/'' @ rest \<longrightarrow>
      (\<forall>x \<in> set (made s (self_get E path kwargs s)). req_url (fst x) = base @ ''//'' @ rest) \<and>
      (\<forall>x \<in> set (made s (self_post E path payload p s)). req_url (fst x) = base @ ''//'' @ rest) \<and>
      (\<forall>x \<in> set (made s (self_put E path payload p s)). req_url (fst x) = base @ ''//'' @ rest))"
proof -
  have b: "map (\<lambda>x. req_url (fst x)) (made s (get_body E path kwargs s)) = [url (self s) @ path]"
    "map (\<lambda>x. req_url (fst x)) (made s (post_body E path payload p s)) = [url (self s) @ path]"
    "map (\<lambda>x. req_url (fst x)) (made s (put_body E path payload p s)) = [url (self s) @ path]"
    by (simp_all add: get_body_attempt post_body_attempt put_body_attempt attempt_made
        get_request_def post_request_def put_request_def)
  from performs_requests [OF self_get_performs [of E s path kwargs]]
  have g: "made s (self_get E path kwargs s) \<noteq> []"
    "\<forall>x \<in> set (made s (self_get E path kwargs s)). req_url (fst x) = url (self s) @ path"
    by (auto simp: get_request_def)
  from performs_requests [OF self_post_performs [of E s path payload p]]
  have po: "made s (self_post E path payload p s) \<noteq> []"
    "\<forall>x \<in> set (made s (self_post E path payload p s)). req_url (fst x) = url (self s) @ path"
    by (auto simp: post_request_def)
  from performs_requests [OF self_put_performs [of E s path payload p]]
  have pu: "made s (self_put E path payload p s) \<noteq> []"
    "\<forall>x \<in> set (made s (self_put E path payload p s)). req_url (fst x) = url (self s) @ path"
    by (auto simp: put_request_def)
  show ?thesis
    using b g po pu by simp
qed

theorem url_plain_concatenation_witness:
  "map (\<lambda>x. req_url (fst x))
     (made \<lparr>self = fresh_client ''https://ids7/'' ''tok'' ''app'', net = [], exchanges = []\<rparr>
        (self_get demo_env ''/info'' []
           \<lparr>self = fresh_client ''https://ids7/'' ''tok'' ''app'', net = [], exchanges = []\<rparr>)) =
     [''https://ids7//info'', ''https://ids7//info'', ''https://ids7//info''] \<and>
   map (\<lambda>x. req_url (fst x))
     (made \<lparr>self = fresh_client ''https://ids7/'' ''tok'' ''app'', net = [Received info_ok], exchanges = []\<rparr>
        (self_post demo_env ''/applications/app/results'' (JDict []) True
           \<lparr>self = fresh_client ''https://ids7/'' ''tok'' ''app'', net = [Received info_ok], exchanges = []\<rparr>)) =
     [''https://ids7//applications/app/results''] \<and>
   map (\<lambda>x. req_url (fst x))
     (made \<lparr>self = fresh_client ''https://ids7/'' ''tok'' ''app'', net = [Received info_ok], exchanges = []\<rparr>
        (self_put demo_env ''/application/app/results/r'' (JDict []) True
           \<lparr>self = fresh_client ''https://ids7/'' ''tok'' ''app'', net = [Received info_ok], exchanges = []\<rparr>)) =
     [''https://ids7//application/app/results/r'']"
  using url_plain_concatenation
    [of "\<lparr>self = fresh_client ''https://ids7/'' ''tok'' ''app'', net = [], exchanges = []\<rparr>"
        demo_env "''/info''" "[]" "JDict []" True "''https://ids7''" "''info''"]
  by (simp add: client_defs demo_defs)

end
